theory Spec2Isabelle
  imports Complex_Main "HOL-Library.AList"
begin

section \<open>Python values shared by the modules\<close>

text \<open>
  Exceptions are values: every function that can raise returns \<open>error + 'a\<close>, with
  \<open>Inl\<close> the exception. The string carried by \<open>KeyError\<close> and \<open>AttributeError\<close>
  is the key or attribute that was looked up.
\<close>

datatype error =
    KeyError string
  | AttributeError string
  | AssertionError
  | NotImplementedError
  | ValueError
  | FileNotFoundError string
  | JSONDecodeError

text \<open>A \<open>for\<close> loop whose body may raise: the first exception ends the loop.\<close>

fun for_each :: "('a \<Rightarrow> 's \<Rightarrow> error + 's) \<Rightarrow> 'a list \<Rightarrow> 's \<Rightarrow> error + 's" where
  "for_each body [] s = Inr s"
| "for_each body (x # xs) s =
     (case body x s of Inl e \<Rightarrow> Inl e | Inr s' \<Rightarrow> for_each body xs s')"

subsection \<open>The string methods the modules use\<close>

definition startswith :: "string \<Rightarrow> string \<Rightarrow> bool" where
  "startswith s p \<longleftrightarrow> take (length p) s = p"

definition endswith :: "string \<Rightarrow> string \<Rightarrow> bool" where
  "endswith s p \<longleftrightarrow> length p \<le> length s \<and> drop (length s - length p) s = p"

text \<open>\<open>s.partition(sep)[2]\<close>: what follows the first separator, empty when there is none.\<close>

definition partition_tail :: "char \<Rightarrow> string \<Rightarrow> string" where
  "partition_tail sep s = (case dropWhile (\<lambda>c. c \<noteq> sep) s of [] \<Rightarrow> [] | _ # r \<Rightarrow> r)"

text \<open>\<open>str.upper\<close> on the ASCII letters, which is all an IFC class name holds.\<close>

definition upper_char :: "char \<Rightarrow> char" where
  "upper_char c =
     (case map_of (zip ''abcdefghijklmnopqrstuvwxyz'' ''ABCDEFGHIJKLMNOPQRSTUVWXYZ'') c of
        Some u \<Rightarrow> u
      | None \<Rightarrow> c)"

definition upper :: "string \<Rightarrow> string" where
  "upper s = map upper_char s"

section \<open>alignment.py: evaluate_segment\<close>

text \<open>
  An entity as \<open>evaluate_segment\<close> reads it: its class name (\<open>is_a()\<close>) and its
  \<open>SegmentLength\<close> attribute. The attribute is read only after the class check has passed.
\<close>

record segment_instance =
  segment_is_a :: string
  SegmentLength :: real

type_synonym matrix = "real list list"

definition supported_segment_types :: "string list" where
  "supported_segment_types = [''IFCCURVESEGMENT'']"

text \<open>
  \<open>pwf_evaluate\<close> stands for the geometry kernel
  (\<open>map_shape\<close>, then \<open>piecewise_function_evaluator(...).evaluate(dist_along)\<close>);
  \<open>np.array(...).T\<close> is the transpose.
\<close>

definition evaluate_segment ::
  "(segment_instance \<Rightarrow> real \<Rightarrow> matrix) \<Rightarrow> segment_instance \<Rightarrow> real \<Rightarrow> error + matrix" where
  "evaluate_segment pwf_evaluate segment dist_along =
     (let segment_type = upper (segment_is_a segment) in
      if \<not> (segment_type \<in> set supported_segment_types) then Inl NotImplementedError
      else if dist_along > SegmentLength segment then Inl ValueError
      else Inr (transpose (pwf_evaluate segment dist_along)))"

section \<open>qto.py: loading the rule tables\<close>

definition RULE_SET :: "string list" where
  "RULE_SET = [''IFC4QtoBaseQuantities'', ''IFC4QtoBaseQuantitiesBlender'']"

text \<open>\<open>os.path.join\<close> of two components on a POSIX system.\<close>

definition path_join :: "string \<Rightarrow> string \<Rightarrow> string" where
  "path_join a b =
     (if startswith b ''/'' then b
      else if a = [] \<or> endswith a ''/'' then a @ b
      else a @ ''/'' @ b)"

text \<open>
  The file system is a map from path to text; \<open>json_load\<close> is the JSON parser, \<open>None\<close>
  when the text is not JSON. The module-level loop fills the global \<open>rules\<close>, which
  starts empty.
\<close>

definition load_rule ::
  "(string \<rightharpoonup> string) \<Rightarrow> (string \<Rightarrow> 'j option) \<Rightarrow> string \<Rightarrow> string \<Rightarrow>
     (string \<rightharpoonup> 'j) \<Rightarrow> error + (string \<rightharpoonup> 'j)" where
  "load_rule fs json_load cwd name rules =
     (let path = path_join cwd (name @ ''.json'') in
      case fs path of
        None \<Rightarrow> Inl (FileNotFoundError path)
      | Some text \<Rightarrow>
          (case json_load text of
             None \<Rightarrow> Inl JSONDecodeError
           | Some j \<Rightarrow> Inr (rules(name \<mapsto> j))))"

definition load_rules ::
  "(string \<rightharpoonup> string) \<Rightarrow> (string \<Rightarrow> 'j option) \<Rightarrow> string \<Rightarrow> error + (string \<rightharpoonup> 'j)" where
  "load_rules fs json_load cwd = for_each (load_rule fs json_load cwd) RULE_SET Map.empty"

section \<open>qto.py: the data\<close>

text \<open>
  An element is an entity of the file: its id and its class (\<open>element.is_a()\<close>).
  A Python \<open>set\<close> of elements is a list here; the order of the list is one of the
  orders in which Python may iterate the set, and properties of sets are stated
  through \<open>set\<close>.
\<close>

record element =
  element_id :: nat
  element_is_a :: string

datatype Function = Function (fn_measure: string) (fn_name: string) (fn_description: string)

text \<open>
  A rule set as parsed from JSON. \<open>quantify\<close> reads only the key \<open>calculators\<close>:
  calculator name, then IFC class, then quantity set name, then quantity name, then
  the formula (\<open>None\<close> for JSON \<open>null\<close>). Association lists keep the order of
  \<open>dict.items()\<close>.
\<close>

type_synonym quantities = "(string \<times> string option) list"
type_synonym qtos = "(string \<times> quantities) list"
type_synonym queries = "(string \<times> qtos) list"

record rule_table =
  calculators_key :: "(string \<times> queries) list option"

text \<open>A unit entity: \<open>unit_Prefix\<close> is \<open>None\<close> when the entity has no such attribute.\<close>

record unit =
  unit_Prefix :: "string option option"
  unit_Name :: string

text \<open>
  What the code reads from the file: its schema, the Model/Body/MODEL_VIEW context
  (\<open>get_context\<close>) and the unit the project declares for a unit type
  (\<open>get_project_unit\<close>).
\<close>

record ifc_file =
  schema :: string
  body_context :: "nat option"
  get_project_unit :: "string \<Rightarrow> unit option"

text \<open>Geometry settings: the options that \<open>settings.set\<close> has been called with.\<close>

type_synonym settings = "(string \<times> bool) list"

definition default_settings :: settings where
  "default_settings = []"

definition settings_set :: "string \<Rightarrow> bool \<Rightarrow> settings \<Rightarrow> settings" where
  "settings_set k v s = AList.update k v s"

definition subtracts_openings :: "settings \<Rightarrow> bool" where
  "subtracts_openings s \<longleftrightarrow> map_of s ''disable-opening-subtractions'' \<noteq> Some True"

record geometry =
  verts :: "real list"
  faces :: "nat list"

text \<open>
  A body representation as \<open>get_segment_length\<close> reads it. A profile is classified by
  the first \<open>is_a\<close> test of the source that it passes.
\<close>

datatype profile =
    IfcRectangleProfileDef real real
  | IfcCircleProfileDef
  | IfcParameterizedProfileDef
  | IfcProfileDef

datatype representation_item =
    IfcExtrudedAreaSolid profile real
  | IfcRepresentationItem

record representation =
  representation_id :: nat
  Items :: "representation_item list"

record blender_object =
  object_name :: string
  object_type :: string

text \<open>
  The libraries the module calls and that are not part of it: the schema
  (\<open>get_applicable_types\<close>, \<open>element.is_a(cls)\<close>), the functions of
  \<open>ifcopenshell.util.shape\<close> by name (\<open>getattr\<close>, \<open>None\<close> for a name the module does
  not have), the geometry iterator (the elements and geometries it delivers, in order,
  for given settings, file, number of threads and \<open>include\<close> list),
  \<open>get_representation\<close>, \<open>create_shape\<close>, \<open>ifcopenshell.util.unit.convert\<close> (with
  the value, the source unit, the target prefix and the target unit),
  \<open>multiprocessing.cpu_count\<close>, and on the Blender side \<open>tool.Ifc.get_object\<close> and the
  functions of the Blender calculator by name.
\<close>

record library =
  get_applicable_types :: "string \<Rightarrow> string \<Rightarrow> string list"
  is_a_class :: "element \<Rightarrow> string \<Rightarrow> bool"
  shape_getattr :: "string \<Rightarrow> (geometry \<Rightarrow> real) option"
  geom_iterator :: "settings \<Rightarrow> ifc_file \<Rightarrow> nat \<Rightarrow> element list \<Rightarrow> (element \<times> geometry) list"
  get_representation :: "element \<Rightarrow> representation option"
  create_shape :: "settings \<Rightarrow> representation \<Rightarrow> geometry"
  unit_convert :: "real \<Rightarrow> string \<Rightarrow> string option \<Rightarrow> string \<Rightarrow> real"
  cpu_count :: nat
  get_object :: "element \<Rightarrow> blender_object option"
  calculator_getattr :: "string \<Rightarrow> (blender_object \<Rightarrow> real option) option"

text \<open>\<open>ResultsDict\<close>: element, then quantity set name, then quantity name. A value is
  \<open>None\<close> when the formula returned Python's \<open>None\<close>.\<close>

type_synonym results = "element \<rightharpoonup> (string \<rightharpoonup> (string \<rightharpoonup> real option))"

definition setdefault :: "('k \<rightharpoonup> 'v) \<Rightarrow> 'k \<Rightarrow> 'v \<Rightarrow> ('k \<rightharpoonup> 'v)" where
  "setdefault m k d = (case m k of None \<Rightarrow> m(k \<mapsto> d) | Some _ \<Rightarrow> m)"

section \<open>qto.py: SI2ProjectUnitConverter\<close>

definition unit_types :: "(string \<times> string) list" where
  "unit_types =
     [(''IfcAreaMeasure'', ''AREAUNIT''),
      (''IfcLengthMeasure'', ''LENGTHUNIT''),
      (''IfcMassMeasure'', ''MASSUNIT''),
      (''IfcTimeMeasure'', ''TIMEUNIT''),
      (''IfcVolumeMeasure'', ''VOLUMEUNIT'')]"

definition si_names :: "(string \<times> string) list" where
  "si_names =
     [(''IfcAreaMeasure'', ''SQUARE_METRE''),
      (''IfcLengthMeasure'', ''METRE''),
      (''IfcMassMeasure'', ''GRAM''),
      (''IfcTimeMeasure'', ''SECOND''),
      (''IfcVolumeMeasure'', ''CUBIC_METRE'')]"

text \<open>
  \<open>project_units\<close> after \<open>__init__\<close>: for each measure, \<open>None\<close> when the project
  declares no unit of that type, else the pair of
  \<open>getattr(value, "Prefix", "None")\<close> and \<open>value.Name\<close>.
\<close>

type_synonym converter = "(string \<times> (string option \<times> string) option) list"

definition unit_pair :: "unit \<Rightarrow> string option \<times> string" where
  "unit_pair u =
     ((case unit_Prefix u of None \<Rightarrow> Some ''None'' | Some p \<Rightarrow> p), unit_Name u)"

definition SI2ProjectUnitConverter :: "ifc_file \<Rightarrow> converter" where
  "SI2ProjectUnitConverter ifc_file =
     map (\<lambda>(measure_name, unit_type). (measure_name, map_option unit_pair (get_project_unit ifc_file unit_type)))
       unit_types"

definition convert :: "library \<Rightarrow> converter \<Rightarrow> real \<Rightarrow> string \<Rightarrow> error + real" where
  "convert lib project_units v measure_name =
     (case map_of project_units measure_name of
        Some (Some (prefix, name)) \<Rightarrow>
          (case map_of si_names measure_name of
             None \<Rightarrow> Inl (KeyError measure_name)
           | Some si \<Rightarrow> Inr (unit_convert lib v si prefix name))
      | _ \<Rightarrow> Inr v)"

section \<open>qto.py: the IfcOpenShell calculator\<close>

definition raw_functions :: "(string \<times> Function) list" where
  "raw_functions =
     [(''get_x'', Function ''IfcLengthMeasure'' ''X'' ''Calculates the length along the local X axis''),
      (''get_y'', Function ''IfcLengthMeasure'' ''Y'' ''Calculates the length along the local Y axis''),
      (''get_z'', Function ''IfcLengthMeasure'' ''Z'' ''Calculates the length along the local Z axis''),
      (''get_max_xy'', Function ''IfcLengthMeasure'' ''Max XY'' ''The maximum X or Y local dimension''),
      (''get_max_xyz'', Function ''IfcLengthMeasure'' ''Max XYZ'' ''The maximum X, Y, or Z local dimension''),
      (''get_min_xyz'', Function ''IfcLengthMeasure'' ''Min XYZ'' ''The minimum X, Y, or Z local dimension''),
      (''get_top_elevation'', Function ''IfcLengthMeasure'' ''Top elevation'' ''The local maximum Z ordinate''),
      (''get_bottom_elevation'', Function ''IfcLengthMeasure'' ''Bottom Elevation'' ''The local minimum Z ordinate''),
      (''get_footprint_perimeter'', Function ''IfcLengthMeasure'' ''Footprint Perimeter''
         ''The perimeter if the object's faces were projected along the Z-axis and seen top down''),
      (''get_segment_length'', Function ''IfcLengthMeasure'' ''Segment Length''
         ''Intelligently guesses the length of flow segments''),
      (''get_area'', Function ''IfcAreaMeasure'' ''Area'' ''The total surface area of the element''),
      (''get_footprint_area'', Function ''IfcAreaMeasure'' ''Footprint Area''
         ''The area if the object's faces were projected along the Z-axis and seen top down''),
      (''get_max_side_area'', Function ''IfcAreaMeasure'' ''Max Side Area''
         ''The maximum side area when seen from either X, Y, or Z directions''),
      (''get_outer_surface_area'', Function ''IfcAreaMeasure'' ''Outer Surface Area''
         ''The total surface area except for the top or bottom, such as the ends of columns or beams''),
      (''get_side_area'', Function ''IfcAreaMeasure'' ''Side area''
         ''The side (non-projected) are of the shape as seen from the local Y-axis''),
      (''get_top_area'', Function ''IfcAreaMeasure'' ''Top area''
         ''The total surface area deviating by no more than 45 degrees from the local Z+ axis.''),
      (''get_volume'', Function ''IfcVolumeMeasure'' ''Volume'' ''Calculates the volume of a manifold shape'')]"

definition IfcOpenShell_functions :: "(string \<times> Function) list" where
  "IfcOpenShell_functions =
     concat (map (\<lambda>(k, v).
        [(''gross_'' @ k, Function (fn_measure v) (''Gross '' @ fn_name v) (fn_description v)),
         (''net_'' @ k, Function (fn_measure v) (''Net '' @ fn_name v) (fn_description v))])
       raw_functions)"

definition gross_settings :: settings where
  "gross_settings = settings_set ''disable-opening-subtractions'' True default_settings"

definition net_settings :: settings where
  "net_settings = default_settings"

text \<open>
  \<open>get_segment_length\<close>. For a profile that passes none of the three \<open>is_a\<close> tests the
  source calls \<open>create_shape(settings, ...)\<close> inside \<open>try\<close>: the module has no name
  \<open>settings\<close>, the \<open>NameError\<close> is caught by the bare \<open>except\<close>, and the function
  returns \<open>None\<close>, as it does when it falls off its end.
\<close>

definition get_segment_length :: "library \<Rightarrow> element \<Rightarrow> real option" where
  "get_segment_length lib element =
     (case get_representation lib element of
        None \<Rightarrow> None
      | Some rep \<Rightarrow>
          (case Items rep of
             [IfcExtrudedAreaSolid swept_area depth] \<Rightarrow>
               (case swept_area of
                  IfcRectangleProfileDef x y \<Rightarrow> Some (max x (max y depth))
                | IfcCircleProfileDef \<Rightarrow> Some depth
                | IfcParameterizedProfileDef \<Rightarrow> Some depth
                | IfcProfileDef \<Rightarrow> None)
           | _ \<Rightarrow> None))"

subsection \<open>Sorting the formulas into gross and net\<close>

type_synonym QtosFormulas = "(string \<times> (string \<times> string) list) list"

text \<open>\<open>d.setdefault(name, {})[quantity] = formula\<close>\<close>

definition set_formula :: "string \<Rightarrow> string \<Rightarrow> string \<Rightarrow> QtosFormulas \<Rightarrow> QtosFormulas" where
  "set_formula name quantity formula d =
     AList.update name
       (AList.update quantity formula (case map_of d name of None \<Rightarrow> [] | Some q \<Rightarrow> q)) d"

record formula_state =
  gross_qtos :: QtosFormulas
  net_qtos :: QtosFormulas
  formula_functions :: "string \<rightharpoonup> (geometry \<Rightarrow> real)"

definition put_formula :: "bool \<Rightarrow> string \<Rightarrow> string \<Rightarrow> string \<Rightarrow> formula_state \<Rightarrow> formula_state" where
  "put_formula gross name quantity formula st =
     (if gross then st\<lparr>gross_qtos := set_formula name quantity formula (gross_qtos st)\<rparr>
      else st\<lparr>net_qtos := set_formula name quantity formula (net_qtos st)\<rparr>)"

definition classify_formula ::
  "library \<Rightarrow> string \<Rightarrow> string \<times> string option \<Rightarrow> formula_state \<Rightarrow> error + formula_state" where
  "classify_formula lib name qf st =
     (case snd qf of
        None \<Rightarrow> Inr st
      | Some formula \<Rightarrow>
          if formula = [] then Inr st
          else if endswith formula ''get_segment_length'' then
            Inr (put_formula (startswith formula ''gross_'') name (fst qf)
                   (partition_tail CHR ''_'' formula) st)
          else if startswith formula ''gross_'' \<or> startswith formula ''net_'' then
            (let formula' = partition_tail CHR ''_'' formula in
             case shape_getattr lib formula' of
               None \<Rightarrow> Inl (AttributeError formula')
             | Some fn \<Rightarrow>
                 Inr ((put_formula (startswith formula ''gross_'') name (fst qf) formula' st)
                        \<lparr>formula_functions := (formula_functions st)(formula' \<mapsto> fn)\<rparr>))
          else Inr st)"

definition classify_formulas :: "library \<Rightarrow> qtos \<Rightarrow> error + formula_state" where
  "classify_formulas lib qs =
     for_each (\<lambda>(name, quantities). for_each (classify_formula lib name) quantities) qs
       \<lparr>gross_qtos = [], net_qtos = [], formula_functions = Map.empty\<rparr>"

subsection \<open>Iterators\<close>

datatype iterator =
    IteratorForTypes settings "element list" nat
  | GeomIterator settings nat "element list"

text \<open>The constructor of \<open>IteratorForTypes\<close> asserts that the file has a body context.\<close>

definition new_IteratorForTypes :: "ifc_file \<Rightarrow> settings \<Rightarrow> element list \<Rightarrow> error + iterator" where
  "new_IteratorForTypes ifc_file s elements =
     (case body_context ifc_file of
        None \<Rightarrow> Inl AssertionError
      | Some model \<Rightarrow> Inr (IteratorForTypes s elements model))"

definition create_iterators ::
  "library \<Rightarrow> ifc_file \<Rightarrow> settings \<Rightarrow> element list \<Rightarrow> error + iterator list" where
  "create_iterators lib ifc_file s elements =
     (let sorted_true = filter (\<lambda>e. is_a_class lib e ''IfcTypeProduct'') elements;
          sorted_false = filter (\<lambda>e. \<not> is_a_class lib e ''IfcTypeProduct'') elements
      in case (if sorted_true \<noteq> []
               then (case new_IteratorForTypes ifc_file s sorted_true of
                       Inl e \<Rightarrow> Inl e | Inr it \<Rightarrow> Inr [it])
               else Inr []) of
           Inl e \<Rightarrow> Inl e
         | Inr iterators \<Rightarrow>
             Inr (iterators @
                  (if sorted_false \<noteq> [] then [GeomIterator s (cpu_count lib) elements] else [])))"

text \<open>
  \<open>IteratorForTypes.process_shape\<close> and \<open>next\<close>: elements are popped from the end of
  the list until one has a representation. The result is the element and shape now
  current and the elements left, \<open>None\<close> when \<open>next\<close> returns \<open>False\<close>.
\<close>

definition process_shape :: "library \<Rightarrow> settings \<Rightarrow> element \<Rightarrow> geometry option" where
  "process_shape lib s element =
     (case get_representation lib element of
        None \<Rightarrow> None
      | Some rep \<Rightarrow> Some (create_shape lib s rep))"

function IteratorForTypes_next ::
  "library \<Rightarrow> settings \<Rightarrow> element list \<Rightarrow> ((element \<times> geometry) \<times> element list) option" where
  "IteratorForTypes_next lib s elements =
     (if elements = [] then None
      else (case process_shape lib s (last elements) of
              Some shape \<Rightarrow> Some ((last elements, shape), butlast elements)
            | None \<Rightarrow> IteratorForTypes_next lib s (butlast elements)))"
  by pat_completeness auto
termination
  by (relation "measure (\<lambda>(lib, s, elements). length elements)") auto

declare IteratorForTypes_next.simps [simp del]

lemma IteratorForTypes_next_shorter:
  "IteratorForTypes_next lib s elements = Some (d, rest) \<Longrightarrow> length rest < length elements"
proof (induction lib s elements rule: IteratorForTypes_next.induct)
  case (1 lib s elements)
  show ?case
  proof (cases "elements = []")
    case True
    with "1.prems" show ?thesis by (simp add: IteratorForTypes_next.simps)
  next
    case False
    show ?thesis
    proof (cases "process_shape lib s (last elements)")
      case None
      with False "1.prems" have "IteratorForTypes_next lib s (butlast elements) = Some (d, rest)"
        by (simp add: IteratorForTypes_next.simps [of lib s elements])
      with "1.IH" False None have "length rest < length (butlast elements)" by simp
      then show ?thesis by simp
    next
      case (Some shape)
      with False "1.prems" have "rest = butlast elements"
        by (simp add: IteratorForTypes_next.simps [of lib s elements])
      with False show ?thesis by simp
    qed
  qed
qed

text \<open>
  What an iterator delivers to the loop
  \<open>if iterator.initialize(): while True: ...; if not iterator.next(): break\<close>,
  in order. \<open>initialize\<close> of \<open>IteratorForTypes\<close> is \<open>next\<close>.
\<close>

function IteratorForTypes_shapes ::
  "library \<Rightarrow> settings \<Rightarrow> element list \<Rightarrow> (element \<times> geometry) list" where
  "IteratorForTypes_shapes lib s elements =
     (case IteratorForTypes_next lib s elements of
        None \<Rightarrow> []
      | Some (d, rest) \<Rightarrow> d # IteratorForTypes_shapes lib s rest)"
  by pat_completeness auto
termination
  by (relation "measure (\<lambda>(lib, s, elements). length elements)")
     (auto dest: IteratorForTypes_next_shorter)

declare IteratorForTypes_shapes.simps [simp del]

definition iterator_shapes :: "library \<Rightarrow> ifc_file \<Rightarrow> iterator \<Rightarrow> (element \<times> geometry) list" where
  "iterator_shapes lib ifc_file it =
     (case it of
        IteratorForTypes s elements model \<Rightarrow> IteratorForTypes_shapes lib s elements
      | GeomIterator s n include \<Rightarrow> geom_iterator lib s ifc_file n include)"

subsection \<open>calculate\<close>

type_synonym task = "iterator \<times> QtosFormulas"

text \<open>Both groups of tasks are created with \<open>cls.gross_settings\<close>, as in the source.\<close>

definition make_tasks ::
  "library \<Rightarrow> ifc_file \<Rightarrow> element list \<Rightarrow> formula_state \<Rightarrow> error + task list" where
  "make_tasks lib ifc_file elements st =
     (case (if gross_qtos st \<noteq> []
            then (case create_iterators lib ifc_file gross_settings elements of
                    Inl e \<Rightarrow> Inl e
                  | Inr its \<Rightarrow> Inr (map (\<lambda>it. (it, gross_qtos st)) its))
            else Inr []) of
        Inl e \<Rightarrow> Inl e
      | Inr gross_tasks \<Rightarrow>
          (if net_qtos st \<noteq> []
           then (case create_iterators lib ifc_file gross_settings elements of
                   Inl e \<Rightarrow> Inl e
                 | Inr its \<Rightarrow> Inr (gross_tasks @ map (\<lambda>it. (it, net_qtos st)) its))
           else Inr gross_tasks))"

text \<open>\<open>results[element][name][quantity] = v\<close>; the two outer entries exist by then.\<close>

definition assign_result :: "results \<Rightarrow> element \<Rightarrow> string \<Rightarrow> string \<Rightarrow> real option \<Rightarrow> results" where
  "assign_result r element name quantity v =
     (let by_name = (case r element of None \<Rightarrow> Map.empty | Some m \<Rightarrow> m);
          by_quantity = (case by_name name of None \<Rightarrow> Map.empty | Some m \<Rightarrow> m)
      in r(element \<mapsto> by_name(name \<mapsto> by_quantity(quantity \<mapsto> v))))"

text \<open>\<open>results[element].setdefault(name, {})\<close>\<close>

definition setdefault_name :: "results \<Rightarrow> element \<Rightarrow> string \<Rightarrow> results" where
  "setdefault_name r element name =
     (case r element of
        None \<Rightarrow> r(element \<mapsto> [name \<mapsto> Map.empty])
      | Some by_name \<Rightarrow> r(element \<mapsto> setdefault by_name name Map.empty))"

definition store_quantity ::
  "library \<Rightarrow> converter \<Rightarrow> (string \<rightharpoonup> (geometry \<Rightarrow> real)) \<Rightarrow> element \<Rightarrow> geometry \<Rightarrow> string \<Rightarrow>
     string \<times> string \<Rightarrow> results \<Rightarrow> error + results" where
  "store_quantity lib unit_converter ffs element geom name qf r =
     (if snd qf = ''get_segment_length''
      then Inr (assign_result r element name (fst qf) (get_segment_length lib element))
      else (case ffs (snd qf) of
              None \<Rightarrow> Inl (KeyError (snd qf))
            | Some fn \<Rightarrow>
                (case map_of raw_functions (snd qf) of
                   None \<Rightarrow> Inl (KeyError (snd qf))
                 | Some f \<Rightarrow>
                     (case convert lib unit_converter (fn geom) (fn_measure f) of
                        Inl e \<Rightarrow> Inl e
                      | Inr v \<Rightarrow> Inr (assign_result r element name (fst qf) (Some v))))))"

definition store_qto ::
  "library \<Rightarrow> converter \<Rightarrow> (string \<rightharpoonup> (geometry \<Rightarrow> real)) \<Rightarrow> element \<Rightarrow> geometry \<Rightarrow>
     string \<times> (string \<times> string) list \<Rightarrow> results \<Rightarrow> error + results" where
  "store_qto lib unit_converter ffs element geom nq r =
     for_each (store_quantity lib unit_converter ffs element geom (fst nq)) (snd nq)
       (setdefault_name r element (fst nq))"

definition store_element ::
  "library \<Rightarrow> converter \<Rightarrow> (string \<rightharpoonup> (geometry \<Rightarrow> real)) \<Rightarrow> QtosFormulas \<Rightarrow>
     element \<times> geometry \<Rightarrow> results \<Rightarrow> error + results" where
  "store_element lib unit_converter ffs qtos1 eg r =
     for_each (store_qto lib unit_converter ffs (fst eg) (snd eg)) qtos1
       (setdefault r (fst eg) Map.empty)"

definition run_task ::
  "library \<Rightarrow> ifc_file \<Rightarrow> converter \<Rightarrow> (string \<rightharpoonup> (geometry \<Rightarrow> real)) \<Rightarrow> task \<Rightarrow> results \<Rightarrow>
     error + results" where
  "run_task lib ifc_file unit_converter ffs t r =
     for_each (store_element lib unit_converter ffs (snd t)) (iterator_shapes lib ifc_file (fst t)) r"

definition IfcOpenShell_calculate ::
  "library \<Rightarrow> ifc_file \<Rightarrow> element list \<Rightarrow> qtos \<Rightarrow> results \<Rightarrow> error + results" where
  "IfcOpenShell_calculate lib ifc_file elements qs r =
     (case classify_formulas lib qs of
        Inl e \<Rightarrow> Inl e
      | Inr st \<Rightarrow>
          (case make_tasks lib ifc_file elements st of
             Inl e \<Rightarrow> Inl e
           | Inr tasks \<Rightarrow>
               for_each (run_task lib ifc_file (SI2ProjectUnitConverter ifc_file) (formula_functions st))
                 tasks r))"

subsection \<open>Reading the dictionaries\<close>

text \<open>\<open>d[name][quantity]\<close> and \<open>results[element][name][quantity]\<close>, \<open>None\<close> when a key is missing.\<close>

definition formula_at :: "QtosFormulas \<Rightarrow> string \<Rightarrow> string \<Rightarrow> string option" where
  "formula_at d name quantity =
     (case map_of d name of None \<Rightarrow> None | Some quantities \<Rightarrow> map_of quantities quantity)"

definition result_at :: "results \<Rightarrow> element \<Rightarrow> string \<Rightarrow> string \<Rightarrow> real option option" where
  "result_at r element name quantity =
     (case r element of
        None \<Rightarrow> None
      | Some by_name \<Rightarrow> (case by_name name of None \<Rightarrow> None | Some by_quantity \<Rightarrow> by_quantity quantity))"

text \<open>The keys of a dictionary of dictionaries are distinct at both levels.\<close>

definition keys_distinct :: "(string \<times> (string \<times> 'v) list) list \<Rightarrow> bool" where
  "keys_distinct d \<longleftrightarrow> distinct (map fst d) \<and> (\<forall>nq \<in> set d. distinct (map fst (snd nq)))"

text \<open>
  The invariant of the sorting loop: the two dictionaries have distinct keys, and a
  registered function is the function of that name in the shape module.
\<close>

definition sorted_state :: "library \<Rightarrow> formula_state \<Rightarrow> bool" where
  "sorted_state lib st \<longleftrightarrow>
     keys_distinct (gross_qtos st) \<and> keys_distinct (net_qtos st) \<and>
     (\<forall>k fn. formula_functions st k = Some fn \<longrightarrow> shape_getattr lib k = Some fn)"

text \<open>
  \<open>v\<close> is what the loop of \<open>calculate\<close> stores for a formula other than
  \<open>get_segment_length\<close> on geometry \<open>g\<close>: the registered function applied to the
  geometry, converted for the measure that \<open>raw_functions\<close> gives the formula.
\<close>

definition converted_value ::
  "library \<Rightarrow> converter \<Rightarrow> (string \<rightharpoonup> (geometry \<Rightarrow> real)) \<Rightarrow> string \<Rightarrow> geometry \<Rightarrow> real \<Rightarrow> bool" where
  "converted_value lib unit_converter ffs formula g v \<longleftrightarrow>
     (\<exists>fn f. ffs formula = Some fn \<and> map_of raw_functions formula = Some f \<and>
        convert lib unit_converter (fn g) (fn_measure f) = Inr v)"

section \<open>qto.py: the Blender calculator\<close>

definition Blender_functions :: "(string \<times> Function) list" where
  "Blender_functions =
     [(''get_covering_width'', Function ''IfcLengthMeasure'' ''Covering Width'' []),
      (''get_finish_ceiling_height'', Function ''IfcLengthMeasure'' ''Finish Ceiling Height'' []),
      (''get_finish_floor_height'', Function ''IfcLengthMeasure'' ''Finish Floor Height'' []),
      (''get_gross_perimeter'', Function ''IfcLengthMeasure'' ''Gross Perimeter'' []),
      (''get_height'', Function ''IfcLengthMeasure'' ''Height'' []),
      (''get_length'', Function ''IfcLengthMeasure'' ''Length'' []),
      (''get_opening_depth'', Function ''IfcLengthMeasure'' ''Opening Depth'' []),
      (''get_opening_height'', Function ''IfcLengthMeasure'' ''Opening Height'' []),
      (''get_rectangular_perimeter'', Function ''IfcLengthMeasure'' ''Rectangular Perimeter'' []),
      (''get_stair_length'', Function ''IfcLengthMeasure'' ''Stair Length'' []),
      (''get_width'', Function ''IfcLengthMeasure'' ''Width'' []),
      (''get_covering_gross_area'', Function ''IfcAreaMeasure'' ''Covering Gross Area'' []),
      (''get_covering_net_area'', Function ''IfcAreaMeasure'' ''Covering Net Area'' []),
      (''get_cross_section_area'', Function ''IfcAreaMeasure'' ''Cross Section Area'' []),
      (''get_gross_ceiling_area'', Function ''IfcAreaMeasure'' ''Gross Ceiling Area'' []),
      (''get_gross_footprint_area'', Function ''IfcAreaMeasure'' ''Gross Footprint Area'' []),
      (''get_gross_side_area'', Function ''IfcAreaMeasure'' ''Gross Side Area'' []),
      (''get_gross_stair_area'', Function ''IfcAreaMeasure'' ''Gross Stair Area'' []),
      (''get_gross_surface_area'', Function ''IfcAreaMeasure'' ''Gross Surface Area'' []),
      (''get_gross_top_area'', Function ''IfcAreaMeasure'' ''Gross Top Area'' []),
      (''get_net_ceiling_area'', Function ''IfcAreaMeasure'' ''Net Ceiling Area'' []),
      (''get_net_floor_area'', Function ''IfcAreaMeasure'' ''Net Floor Area'' []),
      (''get_net_footprint_area'', Function ''IfcAreaMeasure'' ''Net Footprint Area'' []),
      (''get_net_side_area'', Function ''IfcAreaMeasure'' ''Net Side Area'' []),
      (''get_net_stair_area'', Function ''IfcAreaMeasure'' ''Net Stair Area'' []),
      (''get_net_surface_area'', Function ''IfcAreaMeasure'' ''Net Surface Area'' []),
      (''get_net_top_area'', Function ''IfcAreaMeasure'' ''Net Top Area'' []),
      (''get_opening_mapping_area'', Function ''IfcAreaMeasure'' ''Opening Mapping Area'' []),
      (''get_outer_surface_area'', Function ''IfcAreaMeasure'' ''Outer Surface Area'' []),
      (''get_gross_volume'', Function ''IfcVolumeMeasure'' ''Gross Volume'' []),
      (''get_net_volume'', Function ''IfcVolumeMeasure'' ''Net Volume'' []),
      (''get_space_net_volume'', Function ''IfcVolumeMeasure'' ''Space Net Volume'' []),
      (''get_gross_weight'', Function ''IfcMassMeasure'' ''Gross Weight'' []),
      (''get_net_weight'', Function ''IfcMassMeasure'' ''Net Weight'' [])]"

text \<open>
  One quantity of one quantity set. The source caches \<open>getattr(calculator, formula)\<close>
  in a dictionary; the cache returns what \<open>getattr\<close> returned before.
\<close>

definition blender_quantity ::
  "library \<Rightarrow> converter \<Rightarrow> blender_object \<Rightarrow> string \<times> string option \<Rightarrow>
     (string \<rightharpoonup> real option) \<Rightarrow> error + (string \<rightharpoonup> real option)" where
  "blender_quantity lib unit_converter obj qf qto_results =
     (case snd qf of
        None \<Rightarrow> Inr qto_results
      | Some formula \<Rightarrow>
          if formula = [] then Inr qto_results
          else (case calculator_getattr lib formula of
                  None \<Rightarrow> Inl (AttributeError formula)
                | Some formula_function \<Rightarrow>
                    (case formula_function obj of
                       None \<Rightarrow> Inr qto_results
                     | Some v \<Rightarrow>
                         (case map_of Blender_functions formula of
                            None \<Rightarrow> Inl (KeyError formula)
                          | Some f \<Rightarrow>
                              (case convert lib unit_converter v (fn_measure f) of
                                 Inl e \<Rightarrow> Inl e
                               | Inr v' \<Rightarrow> Inr (qto_results(fst qf \<mapsto> Some v')))))))"

definition blender_qto ::
  "library \<Rightarrow> converter \<Rightarrow> blender_object \<Rightarrow> string \<times> quantities \<Rightarrow>
     (string \<rightharpoonup> (string \<rightharpoonup> real option)) \<Rightarrow> error + (string \<rightharpoonup> (string \<rightharpoonup> real option))" where
  "blender_qto lib unit_converter obj nq element_results =
     (case for_each (blender_quantity lib unit_converter obj) (snd nq) Map.empty of
        Inl e \<Rightarrow> Inl e
      | Inr qto_results \<Rightarrow>
          Inr (if qto_results \<noteq> Map.empty then element_results(fst nq \<mapsto> qto_results)
               else element_results))"

definition blender_element ::
  "library \<Rightarrow> converter \<Rightarrow> qtos \<Rightarrow> element \<Rightarrow> results \<Rightarrow> error + results" where
  "blender_element lib unit_converter qs element r =
     (case get_object lib element of
        None \<Rightarrow> Inr r
      | Some obj \<Rightarrow>
          if object_type obj \<noteq> ''MESH'' then Inr r
          else (case for_each (blender_qto lib unit_converter obj) qs Map.empty of
                  Inl e \<Rightarrow> Inl e
                | Inr element_results \<Rightarrow>
                    Inr (if element_results \<noteq> Map.empty then r(element \<mapsto> element_results)
                         else r)))"

definition Blender_calculate ::
  "library \<Rightarrow> ifc_file \<Rightarrow> element list \<Rightarrow> qtos \<Rightarrow> results \<Rightarrow> error + results" where
  "Blender_calculate lib ifc_file elements qs r =
     for_each (blender_element lib (SI2ProjectUnitConverter ifc_file) qs) elements r"

section \<open>qto.py: quantify\<close>

text \<open>
  \<open>elements_by_classes\<close>, a \<open>defaultdict(set)\<close>: the classes in the order they were
  first met, each with its elements.
\<close>

definition add_by_class ::
  "element \<Rightarrow> (string \<times> element list) list \<Rightarrow> (string \<times> element list) list" where
  "add_by_class e d =
     AList.update (element_is_a e)
       (List.insert e (case map_of d (element_is_a e) of None \<Rightarrow> [] | Some es \<Rightarrow> es)) d"

definition elements_by_classes :: "element list \<Rightarrow> (string \<times> element list) list" where
  "elements_by_classes elements = fold add_by_class elements []"

text \<open>The inner loop over \<open>ifc_classes\<close>; \<open>set.update\<close> adds what is not yet there.\<close>

definition filtered_elements ::
  "library \<Rightarrow> ifc_file \<Rightarrow> (string \<times> element list) list \<Rightarrow> string \<Rightarrow> element list" where
  "filtered_elements lib ifc_file by_classes ifc_class =
     fold (\<lambda>c acc. case map_of by_classes c of None \<Rightarrow> acc | Some es \<Rightarrow> fold List.insert es acc)
       (ifc_class # get_applicable_types lib ifc_class (schema ifc_file)) []"

text \<open>
  A calculator is its \<open>calculate\<close>: file, elements, quantity sets and the results so
  far. The body of \<open>quantify\<close> does not depend on what the calculators in the global
  table \<open>calculators\<close> do with the results, so the table is a parameter of the body
  and \<open>'s\<close> is the type of what the calculators update.
\<close>

type_synonym 's calculator = "ifc_file \<Rightarrow> element list \<Rightarrow> qtos \<Rightarrow> 's \<Rightarrow> error + 's"

definition quantify_query ::
  "'s calculator \<Rightarrow> library \<Rightarrow> ifc_file \<Rightarrow> (string \<times> element list) list \<Rightarrow>
     string \<times> qtos \<Rightarrow> 's \<Rightarrow> error + 's" where
  "quantify_query calculator lib ifc_file by_classes q r =
     (let filtered = filtered_elements lib ifc_file by_classes (fst q)
      in if filtered \<noteq> [] then calculator ifc_file filtered (snd q) r else Inr r)"

definition quantify_calculator ::
  "(string \<times> 's calculator) list \<Rightarrow> library \<Rightarrow> ifc_file \<Rightarrow> (string \<times> element list) list \<Rightarrow>
     string \<times> queries \<Rightarrow> 's \<Rightarrow> error + 's" where
  "quantify_calculator table lib ifc_file by_classes cq r =
     (case map_of table (fst cq) of
        None \<Rightarrow> Inl (KeyError (fst cq))
      | Some calculator \<Rightarrow>
          for_each (quantify_query calculator lib ifc_file by_classes) (snd cq) r)"

definition quantify_body ::
  "(string \<times> 's calculator) list \<Rightarrow> library \<Rightarrow> ifc_file \<Rightarrow> element list \<Rightarrow> rule_table \<Rightarrow>
     's \<Rightarrow> error + 's" where
  "quantify_body table lib ifc_file elements rules r =
     (let by_classes = elements_by_classes elements
      in case calculators_key rules of
           None \<Rightarrow> Inl (KeyError ''calculators'')
         | Some cs \<Rightarrow> for_each (quantify_calculator table lib ifc_file by_classes) cs r)"

definition calculators :: "library \<Rightarrow> (string \<times> results calculator) list" where
  "calculators lib =
     [(''Blender'', Blender_calculate lib), (''IfcOpenShell'', IfcOpenShell_calculate lib)]"

definition quantify :: "library \<Rightarrow> ifc_file \<Rightarrow> element list \<Rightarrow> rule_table \<Rightarrow> error + results" where
  "quantify lib ifc_file elements rules =
     quantify_body (calculators lib) lib ifc_file elements rules Map.empty"

subsection \<open>Observing the calls\<close>

text \<open>
  To state which calls \<open>quantify\<close> makes, its body is run with calculators of the same
  two names that only record their call: calculator name, elements and quantity sets.
\<close>

type_synonym call = "string \<times> element list \<times> qtos"

definition record_call :: "string \<Rightarrow> call list calculator" where
  "record_call cname ifc_file elements qs calls = Inr (calls @ [(cname, elements, qs)])"

definition recording_calculators :: "(string \<times> call list calculator) list" where
  "recording_calculators = map (\<lambda>cname. (cname, record_call cname)) [''Blender'', ''IfcOpenShell'']"

definition quantify_calls ::
  "library \<Rightarrow> ifc_file \<Rightarrow> element list \<Rightarrow> rule_table \<Rightarrow> error + call list" where
  "quantify_calls lib ifc_file elements rules =
     quantify_body recording_calculators lib ifc_file elements rules []"

text \<open>Making a recorded call on the calculators of a table.\<close>

definition invoke :: "(string \<times> 's calculator) list \<Rightarrow> ifc_file \<Rightarrow> call \<Rightarrow> 's \<Rightarrow> error + 's" where
  "invoke table ifc_file c r =
     (case map_of table (fst c) of
        None \<Rightarrow> Inl (KeyError (fst c))
      | Some calculator \<Rightarrow> calculator ifc_file (fst (snd c)) (snd (snd c)) r)"

text \<open>A call with its elements as a set.\<close>

definition call_set :: "call \<Rightarrow> string \<times> element set \<times> qtos" where
  "call_set c = (fst c, set (fst (snd c)), snd (snd c))"

text \<open>
  The calls as the specification words them: for every entry of the rule table, keyed
  by calculator and IFC class, the set of input elements whose class is that class or
  one of its applicable type classes, and no call when that set is empty.
\<close>

definition matching_elements :: "library \<Rightarrow> ifc_file \<Rightarrow> element list \<Rightarrow> string \<Rightarrow> element set" where
  "matching_elements lib ifc_file elements ifc_class =
     {e \<in> set elements.
        element_is_a e = ifc_class \<or>
        element_is_a e \<in> set (get_applicable_types lib ifc_class (schema ifc_file))}"

definition specified_calls ::
  "library \<Rightarrow> ifc_file \<Rightarrow> element list \<Rightarrow> (string \<times> queries) list \<Rightarrow>
     (string \<times> element set \<times> qtos) list" where
  "specified_calls lib ifc_file elements cs =
     concat (map (\<lambda>(cname, qs).
        concat (map (\<lambda>(ifc_class, q).
          if matching_elements lib ifc_file elements ifc_class = {} then []
          else [(cname, matching_elements lib ifc_file elements ifc_class, q)]) qs)) cs)"

section \<open>qto.py: the file as a mutable object\<close>

text \<open>
  The definitions above read the file as a value. Here the file is the mutable
  object that the source passes around: a state of type \<open>'f\<close>, threaded through every
  library call that receives \<open>ifc_file\<close>. A computation takes the state and returns
  its result or exception together with the state it leaves.
\<close>

type_synonym ('a, 'f) file_op = "'f \<Rightarrow> (error + 'a) \<times> 'f"

definition ret :: "'a \<Rightarrow> ('a, 'f) file_op" where
  "ret x s = (Inr x, s)"

definition raise :: "error \<Rightarrow> ('a, 'f) file_op" where
  "raise e s = (Inl e, s)"

text \<open>A computation that does not touch the file.\<close>

definition pure_step :: "error + 'a \<Rightarrow> ('a, 'f) file_op" where
  "pure_step r s = (r, s)"

text \<open>A library call on the file: it returns a value and the file as the call leaves it.\<close>

definition call :: "('f \<Rightarrow> 'a \<times> 'f) \<Rightarrow> ('a, 'f) file_op" where
  "call f s = (Inr (fst (f s)), snd (f s))"

definition then_do :: "('a, 'f) file_op \<Rightarrow> ('a \<Rightarrow> ('b, 'f) file_op) \<Rightarrow> ('b, 'f) file_op" where
  "then_do m k s = (case m s of (Inl e, s') \<Rightarrow> (Inl e, s') | (Inr x, s') \<Rightarrow> k x s')"

fun for_each_op :: "('a \<Rightarrow> 'b \<Rightarrow> ('b, 'f) file_op) \<Rightarrow> 'a list \<Rightarrow> 'b \<Rightarrow> ('b, 'f) file_op" where
  "for_each_op body [] r = ret r"
| "for_each_op body (x # xs) r = then_do (body x r) (for_each_op body xs)"

text \<open>
  The library functions that are called with the file: \<open>calculate_unit_scale\<close>,
  \<open>get_context\<close> for Model/Body/MODEL_VIEW, \<open>get_project_unit\<close>, the geometry
  iterator (its construction on the file and all it delivers, with \<open>by_id\<close> applied to
  each shape), and the two functions of \<open>ifcopenshell.api.pset\<close> that \<open>edit_qtos\<close>
  calls. \<open>api_get_pset\<close> is \<open>ifcopenshell.util.element.get_pset\<close> followed by \<open>by_id\<close>:
  the id of the quantity set of that name on the element, as the file now has it.
\<close>

record 'f file_api =
  api_calculate_unit_scale :: "'f \<Rightarrow> real \<times> 'f"
  api_get_context :: "'f \<Rightarrow> nat option \<times> 'f"
  api_get_project_unit :: "string \<Rightarrow> 'f \<Rightarrow> unit option \<times> 'f"
  api_geom_iterator :: "settings \<Rightarrow> nat \<Rightarrow> element list \<Rightarrow> 'f \<Rightarrow> (element \<times> geometry) list \<times> 'f"
  api_get_pset :: "element \<Rightarrow> string \<Rightarrow> 'f \<Rightarrow> nat option"
  api_add_qto :: "element \<Rightarrow> string \<Rightarrow> 'f \<Rightarrow> nat \<times> 'f"
  api_edit_qto :: "nat \<Rightarrow> (string \<times> real option) list \<Rightarrow> 'f \<Rightarrow> 'f"

definition project_unit_op ::
  "'f file_api \<Rightarrow> string \<times> string \<Rightarrow> converter \<Rightarrow> (converter, 'f) file_op" where
  "project_unit_op api mu project_units =
     then_do (call (api_get_project_unit api (snd mu)))
       (\<lambda>v. ret (project_units @ [(fst mu, map_option unit_pair v)]))"

definition SI2ProjectUnitConverter_op :: "'f file_api \<Rightarrow> (converter, 'f) file_op" where
  "SI2ProjectUnitConverter_op api = for_each_op (project_unit_op api) unit_types []"

definition new_IteratorForTypes_op ::
  "'f file_api \<Rightarrow> settings \<Rightarrow> element list \<Rightarrow> (iterator, 'f) file_op" where
  "new_IteratorForTypes_op api s elements =
     then_do (call (api_get_context api))
       (\<lambda>context. case context of
                     None \<Rightarrow> raise AssertionError
                   | Some model \<Rightarrow> ret (IteratorForTypes s elements model))"

definition create_iterators_op ::
  "'f file_api \<Rightarrow> library \<Rightarrow> settings \<Rightarrow> element list \<Rightarrow> (iterator list, 'f) file_op" where
  "create_iterators_op api lib s elements =
     (let sorted_true = filter (\<lambda>e. is_a_class lib e ''IfcTypeProduct'') elements;
          sorted_false = filter (\<lambda>e. \<not> is_a_class lib e ''IfcTypeProduct'') elements
      in then_do (if sorted_true \<noteq> []
                  then then_do (new_IteratorForTypes_op api s sorted_true) (\<lambda>it. ret [it])
                  else ret [])
           (\<lambda>iterators.
              ret (iterators @
                   (if sorted_false \<noteq> [] then [GeomIterator s (cpu_count lib) elements] else []))))"

definition make_tasks_op ::
  "'f file_api \<Rightarrow> library \<Rightarrow> element list \<Rightarrow> formula_state \<Rightarrow> (task list, 'f) file_op" where
  "make_tasks_op api lib elements st =
     then_do (if gross_qtos st \<noteq> []
              then then_do (create_iterators_op api lib gross_settings elements)
                     (\<lambda>its. ret (map (\<lambda>it. (it, gross_qtos st)) its))
              else ret [])
       (\<lambda>gross_tasks.
          if net_qtos st \<noteq> []
          then then_do (create_iterators_op api lib gross_settings elements)
                 (\<lambda>its. ret (gross_tasks @ map (\<lambda>it. (it, net_qtos st)) its))
          else ret gross_tasks)"

definition iterator_shapes_op ::
  "'f file_api \<Rightarrow> library \<Rightarrow> iterator \<Rightarrow> ((element \<times> geometry) list, 'f) file_op" where
  "iterator_shapes_op api lib it =
     (case it of
        IteratorForTypes s elements model \<Rightarrow> ret (IteratorForTypes_shapes lib s elements)
      | GeomIterator s n include \<Rightarrow> call (api_geom_iterator api s n include))"

definition run_task_op ::
  "'f file_api \<Rightarrow> library \<Rightarrow> converter \<Rightarrow> (string \<rightharpoonup> (geometry \<Rightarrow> real)) \<Rightarrow> task \<Rightarrow> results \<Rightarrow>
     (results, 'f) file_op" where
  "run_task_op api lib unit_converter ffs t r =
     then_do (iterator_shapes_op api lib (fst t))
       (\<lambda>shapes. pure_step (for_each (store_element lib unit_converter ffs (snd t)) shapes r))"

definition IfcOpenShell_calculate_op ::
  "'f file_api \<Rightarrow> library \<Rightarrow> element list \<Rightarrow> qtos \<Rightarrow> results \<Rightarrow> (results, 'f) file_op" where
  "IfcOpenShell_calculate_op api lib elements qs r =
     then_do (call (api_calculate_unit_scale api))
       (\<lambda>unit_scale.
          then_do (pure_step (classify_formulas lib qs))
            (\<lambda>st.
               then_do (make_tasks_op api lib elements st)
                 (\<lambda>tasks.
                    then_do (SI2ProjectUnitConverter_op api)
                      (\<lambda>unit_converter.
                         for_each_op (run_task_op api lib unit_converter (formula_functions st))
                           tasks r))))"

definition Blender_calculate_op ::
  "'f file_api \<Rightarrow> library \<Rightarrow> element list \<Rightarrow> qtos \<Rightarrow> results \<Rightarrow> (results, 'f) file_op" where
  "Blender_calculate_op api lib elements qs r =
     then_do (SI2ProjectUnitConverter_op api)
       (\<lambda>unit_converter. pure_step (for_each (blender_element lib unit_converter qs) elements r))"

text \<open>
  \<open>quantify\<close> on the file object. \<open>view\<close> gives the file as the reading functions
  above see it in a state; \<open>ifc_file.schema\<close> is an attribute of the object.
\<close>

type_synonym 'f calculator_op = "element list \<Rightarrow> qtos \<Rightarrow> results \<Rightarrow> (results, 'f) file_op"

definition quantify_query_op ::
  "'f calculator_op \<Rightarrow> ('f \<Rightarrow> ifc_file) \<Rightarrow> library \<Rightarrow> (string \<times> element list) list \<Rightarrow>
     string \<times> qtos \<Rightarrow> results \<Rightarrow> (results, 'f) file_op" where
  "quantify_query_op calculator view lib by_classes q r s =
     (let filtered = filtered_elements lib (view s) by_classes (fst q)
      in if filtered \<noteq> [] then calculator filtered (snd q) r s else ret r s)"

definition quantify_calculator_op ::
  "(string \<times> 'f calculator_op) list \<Rightarrow> ('f \<Rightarrow> ifc_file) \<Rightarrow> library \<Rightarrow>
     (string \<times> element list) list \<Rightarrow> string \<times> queries \<Rightarrow> results \<Rightarrow> (results, 'f) file_op" where
  "quantify_calculator_op table view lib by_classes cq r =
     (case map_of table (fst cq) of
        None \<Rightarrow> raise (KeyError (fst cq))
      | Some calculator \<Rightarrow>
          for_each_op (quantify_query_op calculator view lib by_classes) (snd cq) r)"

definition calculators_op :: "'f file_api \<Rightarrow> library \<Rightarrow> (string \<times> 'f calculator_op) list" where
  "calculators_op api lib =
     [(''Blender'', Blender_calculate_op api lib),
      (''IfcOpenShell'', IfcOpenShell_calculate_op api lib)]"

definition quantify_op ::
  "'f file_api \<Rightarrow> ('f \<Rightarrow> ifc_file) \<Rightarrow> library \<Rightarrow> element list \<Rightarrow> rule_table \<Rightarrow> (results, 'f) file_op" where
  "quantify_op api view lib elements rules =
     (let by_classes = elements_by_classes elements
      in case calculators_key rules of
           None \<Rightarrow> raise (KeyError ''calculators'')
         | Some cs \<Rightarrow>
             for_each_op (quantify_calculator_op (calculators_op api lib) view lib by_classes)
               cs Map.empty)"

text \<open>
  \<open>edit_qtos\<close>: for every quantity set of every element of the results, in the order
  of \<open>items()\<close>, the existing quantity set of that name or a newly added one is edited.
\<close>

definition edit_qto_entry ::
  "'f file_api \<Rightarrow> element \<Rightarrow> string \<times> (string \<times> real option) list \<Rightarrow> 'f \<Rightarrow> 'f" where
  "edit_qto_entry api element nq s =
     (case api_get_pset api element (fst nq) s of
        Some qto \<Rightarrow> api_edit_qto api qto (snd nq) s
      | None \<Rightarrow>
          api_edit_qto api (fst (api_add_qto api element (fst nq) s)) (snd nq)
            (snd (api_add_qto api element (fst nq) s)))"

definition edit_qtos ::
  "'f file_api \<Rightarrow> (element \<times> (string \<times> (string \<times> real option) list) list) list \<Rightarrow> 'f \<Rightarrow> 'f" where
  "edit_qtos api result_items s =
     fold (\<lambda>(element, qs) s'. fold (edit_qto_entry api element) qs s') result_items s"

text \<open>
  The library functions of the reading side leave the file as it is, and return what
  the reading functions above return on the file as it is.
\<close>

definition reads_only :: "'f file_api \<Rightarrow> ('f \<Rightarrow> ifc_file) \<Rightarrow> library \<Rightarrow> bool" where
  "reads_only api view lib \<longleftrightarrow>
     (\<forall>s. snd (api_calculate_unit_scale api s) = s) \<and>
     (\<forall>s. api_get_context api s = (body_context (view s), s)) \<and>
     (\<forall>t s. api_get_project_unit api t s = (get_project_unit (view s) t, s)) \<and>
     (\<forall>st n inc s. api_geom_iterator api st n inc s = (geom_iterator lib st (view s) n inc, s))"

section \<open>A sample project\<close>

text \<open>
  A small project on which the functions are evaluated: a wall, a wall type and a
  door; a schema in which \<open>IfcWallType\<close> is the applicable type of \<open>IfcWall\<close>; a
  geometry iterator that delivers one shape for every included element that is not a
  type; a body representation for the wall type only; millimetres as the declared
  length unit and no other declared unit; a Blender mesh for the door only.
\<close>

definition sample_wall :: element where
  "sample_wall = \<lparr>element_id = 1, element_is_a = ''IfcWall''\<rparr>"

definition sample_wall_type :: element where
  "sample_wall_type = \<lparr>element_id = 2, element_is_a = ''IfcWallType''\<rparr>"

definition sample_door :: element where
  "sample_door = \<lparr>element_id = 3, element_is_a = ''IfcDoor''\<rparr>"

definition sample_library :: library where
  "sample_library =
     \<lparr>get_applicable_types = (\<lambda>c s. if c = ''IfcWall'' then [''IfcWallType''] else []),
      is_a_class = (\<lambda>e c. c = ''IfcTypeProduct'' \<and> element_is_a e = ''IfcWallType''),
      shape_getattr = (\<lambda>n. if n = ''get_volume'' then Some (\<lambda>g. sum_list (verts g))
                            else if n = ''get_x'' then Some (\<lambda>g. hd (verts g)) else None),
      geom_iterator = (\<lambda>s f n inc.
         map (\<lambda>e. (e, \<lparr>verts = [2, 3], faces = [0]\<rparr>))
           (filter (\<lambda>e. element_is_a e \<noteq> ''IfcWallType'') inc)),
      get_representation = (\<lambda>e. if element_is_a e = ''IfcWallType''
         then Some \<lparr>representation_id = 10,
                    Items = [IfcExtrudedAreaSolid (IfcRectangleProfileDef 200 3000) 5000]\<rparr>
         else None),
      create_shape = (\<lambda>s r. \<lparr>verts = [4, 5], faces = [0]\<rparr>),
      unit_convert = (\<lambda>v si p n. if p = Some ''MILLI'' then v * 1000 else v),
      cpu_count = 4,
      get_object = (\<lambda>e. if element_is_a e = ''IfcDoor''
         then Some \<lparr>object_name = ''Door'', object_type = ''MESH''\<rparr> else None),
      calculator_getattr = (\<lambda>n. if n = ''get_width'' then Some (\<lambda>ob. Some 2) else None)\<rparr>"

definition sample_file :: ifc_file where
  "sample_file =
     \<lparr>schema = ''IFC4'', body_context = Some 5,
      get_project_unit = (\<lambda>t. if t = ''LENGTHUNIT''
         then Some \<lparr>unit_Prefix = Some (Some ''MILLI''), unit_Name = ''METRE''\<rparr> else None)\<rparr>"

definition sample_wall_qtos :: qtos where
  "sample_wall_qtos =
     [(''Qto_WallBaseQuantities'',
       [(''Length'', Some ''gross_get_x''), (''NetVolume'', Some ''net_get_volume'')])]"

definition sample_door_qtos :: qtos where
  "sample_door_qtos = [(''Qto_DoorBaseQuantities'', [(''Width'', Some ''get_width'')])]"

definition sample_rules :: rule_table where
  "sample_rules =
     \<lparr>calculators_key = Some
        [(''IfcOpenShell'', [(''IfcWall'', sample_wall_qtos), (''IfcSlab'', sample_wall_qtos)]),
         (''Blender'', [(''IfcDoor'', sample_door_qtos)])]\<rparr>"

text \<open>
  A sample file object: its state is the list of the quantity sets written so far
  (element, name, quantities), on top of the sample project.
\<close>

type_synonym sample_state = "(element \<times> string \<times> (string \<times> real option) list) list"

definition sample_api :: "sample_state file_api" where
  "sample_api =
     \<lparr>api_calculate_unit_scale = (\<lambda>s. (1 / 1000, s)),
      api_get_context = (\<lambda>s. (body_context sample_file, s)),
      api_get_project_unit = (\<lambda>t s. (get_project_unit sample_file t, s)),
      api_geom_iterator = (\<lambda>st n inc s. (geom_iterator sample_library st sample_file n inc, s)),
      api_get_pset = (\<lambda>e n s.
         map_of (zip (map (\<lambda>(e', n', q). (e', n')) s) [0 ..< length s]) (e, n)),
      api_add_qto = (\<lambda>e n s. (length s, s @ [(e, n, [])])),
      api_edit_qto = (\<lambda>i q s. s[i := (fst (s ! i), fst (snd (s ! i)), q)])\<rparr>"

section \<open>Properties\<close>

lemma upper_curve_segment: "upper ''IfcCurveSegment'' = ''IFCCURVESEGMENT''"
  by (simp add: upper_def upper_char_def)

text \<open>
  C9. \<open>evaluate_segment\<close> makes its two checks in order. An entity whose upper-cased
  class name is not \<open>IFCCURVESEGMENT\<close> gives \<open>NotImplementedError\<close>; a curve segment
  with \<open>dist_along\<close> beyond its \<open>SegmentLength\<close> gives \<open>ValueError\<close>; the transform
  (the transposed kernel matrix at \<open>dist_along\<close>) is returned exactly when neither
  condition holds.
\<close>

theorem evaluate_segment_cases:
  "(upper (segment_is_a segment) \<noteq> ''IFCCURVESEGMENT'' \<longrightarrow>
      evaluate_segment ev segment d = Inl NotImplementedError) \<and>
   (upper (segment_is_a segment) = ''IFCCURVESEGMENT'' \<and> d > SegmentLength segment \<longrightarrow>
      evaluate_segment ev segment d = Inl ValueError) \<and>
   ((\<exists>m. evaluate_segment ev segment d = Inr m) \<longleftrightarrow>
      upper (segment_is_a segment) = ''IFCCURVESEGMENT'' \<and> \<not> d > SegmentLength segment) \<and>
   (\<forall>m. evaluate_segment ev segment d = Inr m \<longrightarrow> m = transpose (ev segment d))"
  by (auto simp: evaluate_segment_def supported_segment_types_def Let_def)

theorem evaluate_segment_cases_witness:
  "evaluate_segment (\<lambda>s x. [[1, 0], [x, 1]])
     \<lparr>segment_is_a = ''IfcLine'', SegmentLength = 10\<rparr> 3 = Inl NotImplementedError \<and>
   evaluate_segment (\<lambda>s x. [[1, 0], [x, 1]])
     \<lparr>segment_is_a = ''IfcCurveSegment'', SegmentLength = 10\<rparr> 11 = Inl ValueError \<and>
   evaluate_segment (\<lambda>s x. [[1, 0], [x, 1]])
     \<lparr>segment_is_a = ''IfcCurveSegment'', SegmentLength = 10\<rparr> 3 = Inr [[1, 3], [0, 1]]"
proof -
  let ?ev = "\<lambda>(s::segment_instance) (x::real). [[1, 0], [x, 1::real]]"
  have a: "upper (segment_is_a \<lparr>segment_is_a = ''IfcLine'', SegmentLength = 10\<rparr>) \<noteq> ''IFCCURVESEGMENT''"
    by (simp add: upper_def upper_char_def)
  have b: "upper (segment_is_a \<lparr>segment_is_a = ''IfcCurveSegment'', SegmentLength = 10\<rparr>) = ''IFCCURVESEGMENT''"
    by (simp add: upper_curve_segment)
  note t1 = evaluate_segment_cases [where segment = "\<lparr>segment_is_a = ''IfcLine'', SegmentLength = 10\<rparr>" and ev = ?ev and d = 3]
  note t2 = evaluate_segment_cases [where segment = "\<lparr>segment_is_a = ''IfcCurveSegment'', SegmentLength = 10\<rparr>" and ev = ?ev and d = 11]
  note t3 = evaluate_segment_cases [where segment = "\<lparr>segment_is_a = ''IfcCurveSegment'', SegmentLength = 10\<rparr>" and ev = ?ev and d = 3]
  have c1: "evaluate_segment ?ev \<lparr>segment_is_a = ''IfcLine'', SegmentLength = 10\<rparr> 3 = Inl NotImplementedError"
    using t1 a by blast
  have c2: "evaluate_segment ?ev \<lparr>segment_is_a = ''IfcCurveSegment'', SegmentLength = 10\<rparr> 11 = Inl ValueError"
    using t2 b by simp
  have "\<exists>m. evaluate_segment ?ev \<lparr>segment_is_a = ''IfcCurveSegment'', SegmentLength = 10\<rparr> 3 = Inr m"
    using t3 b by simp
  then obtain m where m: "evaluate_segment ?ev \<lparr>segment_is_a = ''IfcCurveSegment'', SegmentLength = 10\<rparr> 3 = Inr m"
    by blast
  with t3 have "m = transpose (?ev \<lparr>segment_is_a = ''IfcCurveSegment'', SegmentLength = 10\<rparr> 3)"
    by blast
  then have "m = [[1, 3], [0, 1]]"
    by (simp add: transpose.simps)
  with m c1 c2 show ?thesis by simp
qed

subsection \<open>Loops\<close>

lemma for_each_Inr_Cons:
  "for_each body (x # xs) s = Inr r \<longleftrightarrow> (\<exists>s'. body x s = Inr s' \<and> for_each body xs s' = Inr r)"
  by (cases "body x s") simp_all

lemma for_each_append:
  "for_each body (xs @ ys) s =
     (case for_each body xs s of Inl e \<Rightarrow> Inl e | Inr s' \<Rightarrow> for_each body ys s')"
  by (induction xs arbitrary: s) (auto split: sum.splits)

lemma for_each_invariant:
  assumes "for_each body xs s = Inr r" and "P s"
    and "\<And>x a b. x \<in> set xs \<Longrightarrow> P a \<Longrightarrow> body x a = Inr b \<Longrightarrow> P b"
  shows "P r"
  using assms
proof (induction xs arbitrary: s)
  case Nil
  then show ?case by simp
next
  case (Cons x xs)
  from Cons.prems(1) obtain s' where s': "body x s = Inr s'" "for_each body xs s' = Inr r"
    unfolding for_each_Inr_Cons by blast
  from Cons.prems(3) [of x s s'] Cons.prems(2) s'(1) have Ps': "P s'" by simp
  show ?case
  proof (rule Cons.IH [OF s'(2) Ps'])
    fix y a b
    assume "y \<in> set xs" "P a" "body y a = Inr b"
    then show "P b" using Cons.prems(3) [of y a b] by simp
  qed
qed

lemma for_each_Inr_body:
  "for_each body xs s = Inr r \<Longrightarrow> x \<in> set xs \<Longrightarrow> \<exists>a b. body x a = Inr b"
  by (induction xs arbitrary: s) (auto split: sum.splits)

subsection \<open>Loading the rule tables\<close>

lemma load_rule_Inr:
  "load_rule fs json_load cwd name rules = Inr rules' \<longleftrightarrow>
     (\<exists>text j. fs (path_join cwd (name @ ''.json'')) = Some text \<and> json_load text = Some j \<and>
        rules' = rules(name \<mapsto> j))"
  by (auto simp: load_rule_def Let_def split: option.splits)

text \<open>
  C8. The module-level loop succeeds exactly when both JSON files are found in the
  module's directory and parse. The table it leaves then has exactly the two keys
  \<open>IFC4QtoBaseQuantities\<close> and \<open>IFC4QtoBaseQuantitiesBlender\<close>, each bound to what the
  parser returns for the file of that name with the suffix \<open>.json\<close>.
\<close>

theorem load_rules_two_rule_sets:
  "(load_rules fs json_load cwd = Inr rules \<longrightarrow>
      dom rules = {''IFC4QtoBaseQuantities'', ''IFC4QtoBaseQuantitiesBlender''} \<and>
      (\<forall>name \<in> dom rules. \<exists>text. fs (path_join cwd (name @ ''.json'')) = Some text \<and>
          rules name = json_load text)) \<and>
   ((\<forall>name \<in> set RULE_SET. \<exists>text j. fs (path_join cwd (name @ ''.json'')) = Some text \<and>
          json_load text = Some j) \<longrightarrow>
      (\<exists>rules. load_rules fs json_load cwd = Inr rules))"
proof -
  have eq: "load_rules fs json_load cwd = Inr rules \<longleftrightarrow>
     (\<exists>t1 j1 t2 j2. fs (path_join cwd (''IFC4QtoBaseQuantities'' @ ''.json'')) = Some t1 \<and> json_load t1 = Some j1 \<and>
        fs (path_join cwd (''IFC4QtoBaseQuantitiesBlender'' @ ''.json'')) = Some t2 \<and> json_load t2 = Some j2 \<and>
        rules = [''IFC4QtoBaseQuantities'' \<mapsto> j1, ''IFC4QtoBaseQuantitiesBlender'' \<mapsto> j2])" for rules
    unfolding load_rules_def RULE_SET_def for_each_Inr_Cons load_rule_Inr for_each.simps(1)
    by auto
  show ?thesis
    unfolding eq by (auto simp: RULE_SET_def split: if_splits)
qed


theorem load_rules_two_rule_sets_witness:
  "\<exists>rules. load_rules
     [''/pkg/ifc5d/IFC4QtoBaseQuantities.json'' \<mapsto> ''{a}'',
      ''/pkg/ifc5d/IFC4QtoBaseQuantitiesBlender.json'' \<mapsto> ''{bb}'']
     (\<lambda>t. Some (length t)) ''/pkg/ifc5d'' = Inr rules \<and>
     dom rules = {''IFC4QtoBaseQuantities'', ''IFC4QtoBaseQuantitiesBlender''} \<and>
     rules ''IFC4QtoBaseQuantities'' = Some 3 \<and>
     rules ''IFC4QtoBaseQuantitiesBlender'' = Some 4"
proof -
  let ?fs = "[''/pkg/ifc5d/IFC4QtoBaseQuantities.json'' \<mapsto> ''{a}'',
      ''/pkg/ifc5d/IFC4QtoBaseQuantitiesBlender.json'' \<mapsto> ''{bb}'']"
  let ?jl = "\<lambda>t::string. Some (length t)"
  have p1: "path_join ''/pkg/ifc5d'' (''IFC4QtoBaseQuantities'' @ ''.json'') = ''/pkg/ifc5d/IFC4QtoBaseQuantities.json''"
    by (simp add: path_join_def startswith_def endswith_def)
  have p2: "path_join ''/pkg/ifc5d'' (''IFC4QtoBaseQuantitiesBlender'' @ ''.json'') = ''/pkg/ifc5d/IFC4QtoBaseQuantitiesBlender.json''"
    by (simp add: path_join_def startswith_def endswith_def)
  have files: "\<forall>name \<in> set RULE_SET. \<exists>text j. ?fs (path_join ''/pkg/ifc5d'' (name @ ''.json'')) = Some text \<and>
          ?jl text = Some j"
    unfolding RULE_SET_def using p1 p2 by simp
  note t = load_rules_two_rule_sets [where fs = ?fs and json_load = ?jl and cwd = "''/pkg/ifc5d''"]
  have "\<exists>rules. load_rules ?fs ?jl ''/pkg/ifc5d'' = Inr rules"
    by (rule t [THEN conjunct2, THEN mp, OF files])
  then obtain rules where r: "load_rules ?fs ?jl ''/pkg/ifc5d'' = Inr rules" ..
  note c = t [where rules = rules, THEN conjunct1, THEN mp, OF r]
  note d = c [THEN conjunct1] and v = c [THEN conjunct2]
  have "''IFC4QtoBaseQuantities'' \<in> dom rules"
    unfolding d by simp
  from bspec [OF v this] have v1: "rules ''IFC4QtoBaseQuantities'' = Some 3"
    unfolding p1 by simp
  have "''IFC4QtoBaseQuantitiesBlender'' \<in> dom rules"
    unfolding d by simp
  from bspec [OF v this] have v2: "rules ''IFC4QtoBaseQuantitiesBlender'' = Some 4"
    unfolding p2 by simp
  show ?thesis
    by (rule exI [of _ rules]) (simp only: r d v1 v2 simp_thms)
qed

subsection \<open>Sorting the elements by class\<close>

lemma set_fold_insert: "set (fold List.insert es acc) = set es \<union> set acc"
  by (induction es arbitrary: acc) auto

lemma distinct_fold_insert: "distinct acc \<Longrightarrow> distinct (fold List.insert es acc)"
  by (induction es arbitrary: acc) auto

lemma map_of_add_by_class:
  "map_of (add_by_class e d) c =
     (if c = element_is_a e
      then Some (List.insert e (case map_of d c of None \<Rightarrow> [] | Some es \<Rightarrow> es))
      else map_of d c)"
  by (simp add: add_by_class_def update_conv')

lemma set_fold_add_by_class:
  "set (case map_of (fold add_by_class es d) c of None \<Rightarrow> [] | Some l \<Rightarrow> l) =
     set (case map_of d c of None \<Rightarrow> [] | Some l \<Rightarrow> l) \<union> {e \<in> set es. element_is_a e = c}"
proof (induction es arbitrary: d)
  case Nil
  then show ?case by simp
next
  case (Cons e es)
  have "set (case map_of (add_by_class e d) c of None \<Rightarrow> [] | Some l \<Rightarrow> l) =
          set (case map_of d c of None \<Rightarrow> [] | Some l \<Rightarrow> l) \<union> (if element_is_a e = c then {e} else {})"
    by (auto simp: map_of_add_by_class split: option.splits)
  with Cons.IH [of "add_by_class e d"] show ?case by auto
qed

lemma set_elements_by_classes:
  "set (case map_of (elements_by_classes elements) c of None \<Rightarrow> [] | Some l \<Rightarrow> l) =
     {e \<in> set elements. element_is_a e = c}"
  unfolding elements_by_classes_def set_fold_add_by_class by simp

lemma set_fold_classes:
  "set (fold (\<lambda>c acc. case map_of d c of None \<Rightarrow> acc | Some es \<Rightarrow> fold List.insert es acc) cs acc) =
     set acc \<union> (\<Union>c \<in> set cs. set (case map_of d c of None \<Rightarrow> [] | Some l \<Rightarrow> l))"
proof (induction cs arbitrary: acc)
  case Nil
  then show ?case by simp
next
  case (Cons c cs)
  show ?case
    by (cases "map_of d c") (auto simp: Cons.IH set_fold_insert)
qed

lemma distinct_fold_classes:
  "distinct acc \<Longrightarrow>
   distinct (fold (\<lambda>c acc. case map_of d c of None \<Rightarrow> acc | Some es \<Rightarrow> fold List.insert es acc) cs acc)"
proof (induction cs arbitrary: acc)
  case Nil
  then show ?case by simp
next
  case (Cons c cs)
  then show ?case
    by (cases "map_of d c") (simp_all add: distinct_fold_insert)
qed

lemma set_filtered_elements:
  "set (filtered_elements lib ifc_file (elements_by_classes elements) ifc_class) =
     matching_elements lib ifc_file elements ifc_class"
  unfolding filtered_elements_def matching_elements_def set_fold_classes set_elements_by_classes
  by auto

lemma distinct_filtered_elements:
  "distinct (filtered_elements lib ifc_file by_classes ifc_class)"
  unfolding filtered_elements_def by (rule distinct_fold_classes) simp

subsection \<open>The calls of quantify\<close>

lemma record_query:
  "\<exists>new. for_each (quantify_query (record_call cname) lib ifc_file (elements_by_classes elements)) qs calls
            = Inr (calls @ new) \<and>
     map call_set new =
       concat (map (\<lambda>(ifc_class, q).
          if matching_elements lib ifc_file elements ifc_class = {} then []
          else [(cname, matching_elements lib ifc_file elements ifc_class, q)]) qs) \<and>
     (\<forall>c \<in> set new. distinct (fst (snd c)))"
proof (induction qs arbitrary: calls)
  case Nil
  show ?case by simp
next
  case (Cons q qs)
  obtain ifc_class qt where q: "q = (ifc_class, qt)" by (cases q)
  let ?f = "filtered_elements lib ifc_file (elements_by_classes elements) ifc_class"
  let ?step = "if ?f \<noteq> [] then [(cname, ?f, qt)] else []"
  have step: "quantify_query (record_call cname) lib ifc_file (elements_by_classes elements) q calls
                = Inr (calls @ ?step)"
    by (simp add: quantify_query_def record_call_def q Let_def)
  from Cons.IH [of "calls @ ?step"] obtain new where
    new: "for_each (quantify_query (record_call cname) lib ifc_file (elements_by_classes elements)) qs
            (calls @ ?step) = Inr ((calls @ ?step) @ new)"
      "map call_set new =
       concat (map (\<lambda>(ifc_class, q).
          if matching_elements lib ifc_file elements ifc_class = {} then []
          else [(cname, matching_elements lib ifc_file elements ifc_class, q)]) qs)"
      "\<forall>c \<in> set new. distinct (fst (snd c))"
    by blast
  have empty: "?f = [] \<longleftrightarrow> matching_elements lib ifc_file elements ifc_class = {}"
    using set_filtered_elements [of lib ifc_file elements ifc_class] by auto
  have "map call_set ?step =
      (if matching_elements lib ifc_file elements ifc_class = {} then []
          else [(cname, matching_elements lib ifc_file elements ifc_class, qt)])"
    by (simp add: empty call_set_def set_filtered_elements)
  with new step show ?case
    by (intro exI [of _ "?step @ new"]) (auto simp: q distinct_filtered_elements)
qed

lemma map_of_recording_calculators:
  "map_of recording_calculators cname =
     (if cname = ''Blender'' \<or> cname = ''IfcOpenShell'' then Some (record_call cname) else None)"
  by (simp add: recording_calculators_def)

lemma record_calculator:
  assumes "\<forall>cq \<in> set cs. fst cq = ''Blender'' \<or> fst cq = ''IfcOpenShell''"
  shows "\<exists>new. for_each (quantify_calculator recording_calculators lib ifc_file
                        (elements_by_classes elements)) cs calls = Inr (calls @ new) \<and>
     map call_set new = specified_calls lib ifc_file elements cs \<and>
     (\<forall>c \<in> set new. distinct (fst (snd c)))"
  using assms
proof (induction cs arbitrary: calls)
  case Nil
  show ?case by (simp add: specified_calls_def)
next
  case (Cons cq cs)
  obtain cname qs where cq: "cq = (cname, qs)" by (cases cq)
  from Cons.prems cq have cname: "cname = ''Blender'' \<or> cname = ''IfcOpenShell''" by simp
  from record_query [of cname lib ifc_file elements qs calls] obtain new1 where
    new1: "for_each (quantify_query (record_call cname) lib ifc_file (elements_by_classes elements)) qs calls
            = Inr (calls @ new1)"
      "map call_set new1 =
       concat (map (\<lambda>(ifc_class, q).
          if matching_elements lib ifc_file elements ifc_class = {} then []
          else [(cname, matching_elements lib ifc_file elements ifc_class, q)]) qs)"
      "\<forall>c \<in> set new1. distinct (fst (snd c))"
    by blast
  have step: "quantify_calculator recording_calculators lib ifc_file (elements_by_classes elements) cq calls
                = Inr (calls @ new1)"
    using cname new1(1) by (simp only: quantify_calculator_def cq fst_conv snd_conv map_of_recording_calculators if_True option.case)
  from Cons.prems have "\<forall>cq \<in> set cs. fst cq = ''Blender'' \<or> fst cq = ''IfcOpenShell''" by simp
  from Cons.IH [OF this, of "calls @ new1"] obtain new2 where
    new2: "for_each (quantify_calculator recording_calculators lib ifc_file
                        (elements_by_classes elements)) cs (calls @ new1) = Inr ((calls @ new1) @ new2)"
      "map call_set new2 = specified_calls lib ifc_file elements cs"
      "\<forall>c \<in> set new2. distinct (fst (snd c))"
    by blast
  have spec: "specified_calls lib ifc_file elements (cq # cs) =
      map call_set new1 @ specified_calls lib ifc_file elements cs"
    by (simp add: specified_calls_def cq new1(2))
  show ?case
  proof (intro exI [of _ "new1 @ new2"] conjI)
    show "for_each (quantify_calculator recording_calculators lib ifc_file (elements_by_classes elements))
            (cq # cs) calls = Inr (calls @ new1 @ new2)"
      using step new2(1) by simp
    show "map call_set (new1 @ new2) = specified_calls lib ifc_file elements (cq # cs)"
      using spec new2(2) by simp
    show "\<forall>c \<in> set (new1 @ new2). distinct (fst (snd c))"
      using new1(3) new2(3) by auto
  qed
qed

lemma map_of_calculators:
  "map_of (calculators lib) cname =
     (if cname = ''Blender'' then Some (Blender_calculate lib)
      else if cname = ''IfcOpenShell'' then Some (IfcOpenShell_calculate lib) else None)"
  by (simp add: calculators_def)

lemma for_each_cong_set:
  assumes "\<And>x s. x \<in> set xs \<Longrightarrow> f x s = g x s"
  shows "for_each f xs s = for_each g xs s"
  using assms by (induction xs arbitrary: s) (auto split: sum.splits)

lemma replay_query:
  "\<exists>new. for_each (quantify_query (record_call cname) lib ifc_file by_classes) qs calls
            = Inr (calls @ new) \<and>
     (\<forall>c \<in> set new. fst c = cname) \<and>
     (\<forall>r. for_each (quantify_query calculator lib ifc_file by_classes) qs r =
        for_each (\<lambda>c. calculator ifc_file (fst (snd c)) (snd (snd c))) new r)"
proof (induction qs arbitrary: calls)
  case Nil
  show ?case by simp
next
  case (Cons q qs)
  let ?f = "filtered_elements lib ifc_file by_classes (fst q)"
  let ?step = "if ?f \<noteq> [] then [(cname, ?f, snd q)] else []"
  have step: "quantify_query (record_call cname) lib ifc_file by_classes q calls = Inr (calls @ ?step)"
    by (simp add: quantify_query_def record_call_def Let_def)
  from Cons.IH [of "calls @ ?step"] obtain new where
    new: "for_each (quantify_query (record_call cname) lib ifc_file by_classes) qs
            (calls @ ?step) = Inr ((calls @ ?step) @ new)"
      "\<forall>c \<in> set new. fst c = cname"
      "\<forall>r. for_each (quantify_query calculator lib ifc_file by_classes) qs r =
        for_each (\<lambda>c. calculator ifc_file (fst (snd c)) (snd (snd c))) new r"
    by blast
  show ?case
  proof (intro exI [of _ "?step @ new"] conjI allI)
    show "for_each (quantify_query (record_call cname) lib ifc_file by_classes) (q # qs) calls =
        Inr (calls @ ?step @ new)"
      using step new(1) by simp
    show "\<forall>c \<in> set (?step @ new). fst c = cname"
      using new(2) by auto
    fix r
    show "for_each (quantify_query calculator lib ifc_file by_classes) (q # qs) r =
        for_each (\<lambda>c. calculator ifc_file (fst (snd c)) (snd (snd c))) (?step @ new) r"
      using new(3) by (simp add: quantify_query_def Let_def split: sum.splits)
  qed
qed

lemma replay_calculator:
  assumes "\<forall>cq \<in> set cs. fst cq = ''Blender'' \<or> fst cq = ''IfcOpenShell''"
    and "map_of table ''Blender'' \<noteq> None" and "map_of table ''IfcOpenShell'' \<noteq> None"
  shows "\<exists>new. for_each (quantify_calculator recording_calculators lib ifc_file by_classes) cs calls
            = Inr (calls @ new) \<and>
     (\<forall>r. for_each (quantify_calculator table lib ifc_file by_classes) cs r =
        for_each (invoke table ifc_file) new r)"
  using assms(1)
proof (induction cs arbitrary: calls)
  case Nil
  show ?case by simp
next
  case (Cons cq cs)
  from Cons.prems have cname: "fst cq = ''Blender'' \<or> fst cq = ''IfcOpenShell''" by simp
  with assms(2,3) obtain calculator where calc: "map_of table (fst cq) = Some calculator" by auto
  from replay_query [of "fst cq" lib ifc_file by_classes "snd cq" calls calculator] obtain new1 where
    new1: "for_each (quantify_query (record_call (fst cq)) lib ifc_file by_classes) (snd cq) calls
            = Inr (calls @ new1)"
      "\<forall>c \<in> set new1. fst c = fst cq"
      "\<And>r. for_each (quantify_query calculator lib ifc_file by_classes) (snd cq) r =
        for_each (\<lambda>c. calculator ifc_file (fst (snd c)) (snd (snd c))) new1 r"
    by blast
  have step: "quantify_calculator recording_calculators lib ifc_file by_classes cq calls = Inr (calls @ new1)"
    using cname new1(1)
    by (simp only: quantify_calculator_def map_of_recording_calculators if_True option.case)
  have same: "for_each (invoke table ifc_file) new1 r =
      for_each (\<lambda>c. calculator ifc_file (fst (snd c)) (snd (snd c))) new1 r" for r
    by (rule for_each_cong_set) (simp add: invoke_def new1(2) calc)
  have real: "quantify_calculator table lib ifc_file by_classes cq r =
      for_each (invoke table ifc_file) new1 r" for r
    by (simp add: quantify_calculator_def calc new1(3) same)
  from Cons.prems have "\<forall>cq \<in> set cs. fst cq = ''Blender'' \<or> fst cq = ''IfcOpenShell''" by simp
  from Cons.IH [OF this, of "calls @ new1"] obtain new2 where
    new2: "for_each (quantify_calculator recording_calculators lib ifc_file by_classes) cs (calls @ new1)
            = Inr ((calls @ new1) @ new2)"
      "\<And>r. for_each (quantify_calculator table lib ifc_file by_classes) cs r =
        for_each (invoke table ifc_file) new2 r"
    by blast
  show ?case
  proof (intro exI [of _ "new1 @ new2"] conjI allI)
    show "for_each (quantify_calculator recording_calculators lib ifc_file by_classes) (cq # cs) calls =
        Inr (calls @ new1 @ new2)"
      using step new2(1) by simp
    fix r
    show "for_each (quantify_calculator table lib ifc_file by_classes) (cq # cs) r =
        for_each (invoke table ifc_file) (new1 @ new2) r"
      by (simp add: real new2(2) for_each_append split: sum.splits)
  qed
qed

text \<open>
  C1. When every calculator named in the rule table is registered, \<open>quantify\<close> makes,
  in the order of the table, one call for each entry whose set of matching elements
  is not empty, and no call for the others. The elements of the call are, as a set,
  exactly the input elements whose class is the entry's class or one of its
  applicable type classes in the schema of the file, each passed once. The result of
  \<open>quantify\<close> is that of making these calls in turn on the registered calculators,
  up to the first that raises.
\<close>

theorem quantify_calls_as_specified:
  assumes "calculators_key rules = Some cs"
    and "\<forall>cq \<in> set cs. fst cq = ''Blender'' \<or> fst cq = ''IfcOpenShell''"
  shows "\<exists>calls. quantify_calls lib ifc_file elements rules = Inr calls \<and>
     map call_set calls = specified_calls lib ifc_file elements cs \<and>
     (\<forall>c \<in> set calls. distinct (fst (snd c))) \<and>
     quantify lib ifc_file elements rules =
       for_each (invoke (calculators lib) ifc_file) calls Map.empty"
proof -
  let ?bc = "elements_by_classes elements"
  from record_calculator [OF assms(2), of lib ifc_file elements "[]"] obtain calls where
    calls: "for_each (quantify_calculator recording_calculators lib ifc_file ?bc) cs [] = Inr calls"
      "map call_set calls = specified_calls lib ifc_file elements cs"
      "\<forall>c \<in> set calls. distinct (fst (snd c))"
    by auto
  have "map_of (calculators lib) ''Blender'' \<noteq> None" "map_of (calculators lib) ''IfcOpenShell'' \<noteq> None"
    by (simp_all add: map_of_calculators)
  from replay_calculator [OF assms(2) this, of lib ifc_file ?bc "[]"] obtain calls' where
    calls': "for_each (quantify_calculator recording_calculators lib ifc_file ?bc) cs [] = Inr calls'"
      "\<And>r. for_each (quantify_calculator (calculators lib) lib ifc_file ?bc) cs r =
        for_each (invoke (calculators lib) ifc_file) calls' r"
    by auto
  from calls(1) calls'(1) have "calls' = calls" by simp
  with calls'(2) have "quantify lib ifc_file elements rules =
       for_each (invoke (calculators lib) ifc_file) calls Map.empty"
    by (simp add: quantify_def quantify_body_def Let_def assms(1))
  with calls assms(1) show ?thesis
    by (simp add: quantify_calls_def quantify_body_def Let_def)
qed

subsection \<open>The calculator table\<close>

lemma quantify_calculator_registered:
  assumes "quantify_calculator table lib ifc_file by_classes cq a = Inr b"
  shows "fst cq \<in> fst ` set table"
proof -
  from assms have "map_of table (fst cq) \<noteq> None"
    by (auto simp: quantify_calculator_def split: option.splits)
  then show ?thesis
    by (metis map_of_eq_None_iff)
qed

lemma quantify_body_registered:
  assumes "quantify_body table lib ifc_file elements rules r0 = Inr r"
    and "calculators_key rules = Some cs" and "cq \<in> set cs"
  shows "fst cq \<in> fst ` set table"
proof -
  from assms(1,2) have "for_each (quantify_calculator table lib ifc_file (elements_by_classes elements)) cs r0 = Inr r"
    by (simp add: quantify_body_def Let_def)
  from for_each_Inr_body [OF this assms(3)] show ?thesis
    by (auto dest: quantify_calculator_registered)
qed

subsection \<open>The sample project evaluated\<close>

lemma sample_library_sel:
  "get_applicable_types sample_library = (\<lambda>c s. if c = ''IfcWall'' then [''IfcWallType''] else [])"
  "is_a_class sample_library = (\<lambda>e c. c = ''IfcTypeProduct'' \<and> element_is_a e = ''IfcWallType'')"
  "shape_getattr sample_library = (\<lambda>n. if n = ''get_volume'' then Some (\<lambda>g. sum_list (verts g))
                            else if n = ''get_x'' then Some (\<lambda>g. hd (verts g)) else None)"
  "geom_iterator sample_library = (\<lambda>s f n inc.
         map (\<lambda>e. (e, \<lparr>verts = [2, 3], faces = [0]\<rparr>))
           (filter (\<lambda>e. element_is_a e \<noteq> ''IfcWallType'') inc))"
  "get_representation sample_library = (\<lambda>e. if element_is_a e = ''IfcWallType''
         then Some \<lparr>representation_id = 10, Items = [IfcExtrudedAreaSolid (IfcRectangleProfileDef 200 3000) 5000]\<rparr>
         else None)"
  "create_shape sample_library = (\<lambda>s r. \<lparr>verts = [4, 5], faces = [0]\<rparr>)"
  "unit_convert sample_library = (\<lambda>v si p n. if p = Some ''MILLI'' then v * 1000 else v)"
  "cpu_count sample_library = 4"
  "get_object sample_library = (\<lambda>e. if element_is_a e = ''IfcDoor''
         then Some \<lparr>object_name = ''Door'', object_type = ''MESH''\<rparr> else None)"
  "calculator_getattr sample_library = (\<lambda>n. if n = ''get_width'' then Some (\<lambda>ob. Some 2) else None)"
  by (simp_all add: sample_library_def)

lemma sample_file_sel:
  "schema sample_file = ''IFC4''"
  "body_context sample_file = Some 5"
  "get_project_unit sample_file = (\<lambda>t. if t = ''LENGTHUNIT''
         then Some \<lparr>unit_Prefix = Some (Some ''MILLI''), unit_Name = ''METRE''\<rparr> else None)"
  by (simp_all add: sample_file_def)

lemma sample_elements:
  "element_is_a sample_wall = ''IfcWall''"
  "element_is_a sample_wall_type = ''IfcWallType''"
  "element_is_a sample_door = ''IfcDoor''"
  "sample_wall \<noteq> sample_wall_type" "sample_wall_type \<noteq> sample_wall"
  "sample_wall \<noteq> sample_door" "sample_door \<noteq> sample_wall"
  "sample_door \<noteq> sample_wall_type" "sample_wall_type \<noteq> sample_door"
  by (simp_all add: sample_wall_def sample_wall_type_def sample_door_def)

lemma sample_classify: "classify_formulas sample_library sample_wall_qtos = Inr \<lparr>gross_qtos = [(''Qto_WallBaseQuantities'', [(''Length'', ''get_x'')])],
   net_qtos = [(''Qto_WallBaseQuantities'', [(''NetVolume'', ''get_volume'')])],
  formula_functions = [''get_x'' \<mapsto> (\<lambda>g. hd (verts g)), ''get_volume'' \<mapsto> (\<lambda>g. sum_list (verts g))]\<rparr>"
  by (simp add: classify_formulas_def sample_wall_qtos_def classify_formula_def sample_library_sel
     startswith_def endswith_def partition_tail_def put_formula_def set_formula_def Let_def)

lemma sample_iterators:
  "create_iterators sample_library sample_file gross_settings [sample_wall_type, sample_wall] =
     Inr [IteratorForTypes gross_settings [sample_wall_type] 5,
          GeomIterator gross_settings 4 [sample_wall_type, sample_wall]]"
  by (simp add: create_iterators_def new_IteratorForTypes_def sample_library_sel sample_file_sel sample_elements Let_def)

lemma sample_type_shapes:
  "IteratorForTypes_shapes sample_library s [sample_wall_type] = [(sample_wall_type, \<lparr>verts = [4, 5], faces = [0]\<rparr>)]"
  by (simp add: IteratorForTypes_shapes.simps IteratorForTypes_next.simps
        process_shape_def sample_library_sel sample_elements)

lemma sample_converter:
  "SI2ProjectUnitConverter sample_file =
     [(''IfcAreaMeasure'', None), (''IfcLengthMeasure'', Some (Some ''MILLI'', ''METRE'')),
      (''IfcMassMeasure'', None), (''IfcTimeMeasure'', None), (''IfcVolumeMeasure'', None)]"
  by (simp add: SI2ProjectUnitConverter_def unit_types_def sample_file_sel unit_pair_def)

lemma sample_calculate:
  "IfcOpenShell_calculate sample_library sample_file [sample_wall_type, sample_wall] sample_wall_qtos Map.empty =
     Inr [sample_wall_type \<mapsto> [''Qto_WallBaseQuantities'' \<mapsto> [''Length'' \<mapsto> Some 4000, ''NetVolume'' \<mapsto> Some 9]],
          sample_wall \<mapsto> [''Qto_WallBaseQuantities'' \<mapsto> [''Length'' \<mapsto> Some 2000, ''NetVolume'' \<mapsto> Some 5]]]"
  unfolding IfcOpenShell_calculate_def sample_classify
  by (simp add: make_tasks_def sample_iterators run_task_def iterator_shapes_def sample_type_shapes sample_converter
      store_element_def store_qto_def store_quantity_def setdefault_def setdefault_name_def assign_result_def
      convert_def raw_functions_def si_names_def Let_def sample_library_sel sample_elements)

lemma sample_by_classes:
  "elements_by_classes [sample_wall, sample_wall_type, sample_door] =
     [(''IfcWall'', [sample_wall]), (''IfcWallType'', [sample_wall_type]), (''IfcDoor'', [sample_door])]"
  by (simp add: elements_by_classes_def add_by_class_def sample_elements)

lemma sample_filtered:
  "filtered_elements sample_library sample_file
     [(''IfcWall'', [sample_wall]), (''IfcWallType'', [sample_wall_type]), (''IfcDoor'', [sample_door])] ''IfcWall''
     = [sample_wall_type, sample_wall]"
  "filtered_elements sample_library sample_file
     [(''IfcWall'', [sample_wall]), (''IfcWallType'', [sample_wall_type]), (''IfcDoor'', [sample_door])] ''IfcSlab''
     = []"
  "filtered_elements sample_library sample_file
     [(''IfcWall'', [sample_wall]), (''IfcWallType'', [sample_wall_type]), (''IfcDoor'', [sample_door])] ''IfcDoor''
     = [sample_door]"
  by (simp_all add: filtered_elements_def sample_library_sel sample_elements)

lemma sample_blender:
  "Blender_calculate sample_library sample_file [sample_door] sample_door_qtos r =
     Inr (r(sample_door \<mapsto> [''Qto_DoorBaseQuantities'' \<mapsto> [''Width'' \<mapsto> Some 2000]]))"
  by (simp add: Blender_calculate_def blender_element_def blender_qto_def blender_quantity_def
        sample_door_qtos_def sample_library_sel sample_elements sample_converter convert_def
        Blender_functions_def si_names_def)

lemma sample_quantify:
  "quantify sample_library sample_file [sample_wall, sample_wall_type, sample_door] sample_rules =
     Inr [sample_wall_type \<mapsto> [''Qto_WallBaseQuantities'' \<mapsto> [''Length'' \<mapsto> Some 4000, ''NetVolume'' \<mapsto> Some 9]],
          sample_wall \<mapsto> [''Qto_WallBaseQuantities'' \<mapsto> [''Length'' \<mapsto> Some 2000, ''NetVolume'' \<mapsto> Some 5]],
          sample_door \<mapsto> [''Qto_DoorBaseQuantities'' \<mapsto> [''Width'' \<mapsto> Some 2000]]]"
  by (simp add: quantify_def quantify_body_def sample_by_classes sample_rules_def quantify_calculator_def
        calculators_def quantify_query_def sample_filtered sample_calculate sample_blender)

lemma sample_matching:
  "matching_elements sample_library sample_file [sample_wall, sample_wall_type, sample_door] ''IfcWall''
     = {sample_wall, sample_wall_type}"
  "matching_elements sample_library sample_file [sample_wall, sample_wall_type, sample_door] ''IfcSlab'' = {}"
  "matching_elements sample_library sample_file [sample_wall, sample_wall_type, sample_door] ''IfcDoor''
     = {sample_door}"
  by (auto simp: matching_elements_def sample_library_sel sample_elements)

theorem quantify_calls_as_specified_witness:
  "\<exists>calls. quantify_calls sample_library sample_file [sample_wall, sample_wall_type, sample_door] sample_rules
       = Inr calls \<and>
     map call_set calls =
       [(''IfcOpenShell'', {sample_wall, sample_wall_type}, sample_wall_qtos),
        (''Blender'', {sample_door}, sample_door_qtos)]"
proof -
  let ?cs = "[(''IfcOpenShell'', [(''IfcWall'', sample_wall_qtos), (''IfcSlab'', sample_wall_qtos)]),
         (''Blender'', [(''IfcDoor'', sample_door_qtos)])]"
  have key: "calculators_key sample_rules = Some ?cs"
    by (simp add: sample_rules_def)
  have names: "\<forall>cq \<in> set ?cs. fst cq = ''Blender'' \<or> fst cq = ''IfcOpenShell''"
    by simp
  have spec: "specified_calls sample_library sample_file [sample_wall, sample_wall_type, sample_door] ?cs =
       [(''IfcOpenShell'', {sample_wall, sample_wall_type}, sample_wall_qtos),
        (''Blender'', {sample_door}, sample_door_qtos)]"
    by (simp add: specified_calls_def sample_matching)
  from quantify_calls_as_specified [OF key names, of sample_library sample_file
      "[sample_wall, sample_wall_type, sample_door]"]
  show ?thesis
    unfolding spec by (elim exE conjE, intro exI conjI)
qed

text \<open>
  C3 (what the code does). For a rule with a single net formula on the sample wall,
  the one task that \<open>calculate\<close> creates for the net quantities carries an iterator
  built with \<open>gross_settings\<close>, in which opening subtractions are disabled;
  \<open>net_settings\<close>, in which openings are subtracted, is built and not used.
\<close>

theorem net_task_created_with_gross_settings:
  "(case classify_formulas sample_library [(''Qto_WallBaseQuantities'', [(''NetVolume'', Some ''net_get_volume'')])] of
      Inl e \<Rightarrow> Inl e
    | Inr st \<Rightarrow> make_tasks sample_library sample_file [sample_wall] st) =
     Inr [(GeomIterator gross_settings 4 [sample_wall],
           [(''Qto_WallBaseQuantities'', [(''NetVolume'', ''get_volume'')])])] \<and>
   \<not> subtracts_openings gross_settings \<and> subtracts_openings net_settings"
  by (simp add: classify_formulas_def classify_formula_def sample_library_sel
     startswith_def endswith_def partition_tail_def put_formula_def set_formula_def Let_def
     make_tasks_def create_iterators_def sample_elements
     subtracts_openings_def gross_settings_def net_settings_def settings_set_def default_settings_def)

subsection \<open>The keys of the results\<close>

lemma dom_assign_result: "dom (assign_result r e n q v) = insert e (dom r)"
  by (simp add: assign_result_def Let_def)

lemma dom_setdefault: "dom (setdefault m k d) = insert k (dom m)"
  by (auto simp: setdefault_def split: option.splits)

lemma dom_setdefault_name: "dom (setdefault_name r e n) = insert e (dom r)"
  by (auto simp: setdefault_name_def split: option.splits)

lemma store_quantity_assigns:
  "store_quantity lib conv ffs e g n qf r = Inr r' \<Longrightarrow> \<exists>v. r' = assign_result r e n (fst qf) v"
  by (auto simp: store_quantity_def split: if_splits option.splits sum.splits)

lemma store_quantity_dom:
  assumes "store_quantity lib conv ffs e g n qf r = Inr r'"
  shows "dom r' = insert e (dom r)"
proof -
  from store_quantity_assigns [OF assms] obtain v where "r' = assign_result r e n (fst qf) v" ..
  then show ?thesis by (simp only: dom_assign_result)
qed

lemma store_qto_dom:
  assumes "store_qto lib conv ffs e g nq r = Inr r'"
  shows "dom r' = insert e (dom r)"
proof -
  from assms have "for_each (store_quantity lib conv ffs e g (fst nq)) (snd nq) (setdefault_name r e (fst nq)) = Inr r'"
    by (simp add: store_qto_def)
  then show ?thesis
  proof (rule for_each_invariant)
    show "dom (setdefault_name r e (fst nq)) = insert e (dom r)"
      by (rule dom_setdefault_name)
  next
    fix qf a b
    assume "dom a = insert e (dom r)" "store_quantity lib conv ffs e g (fst nq) qf a = Inr b"
    with store_quantity_dom [of lib conv ffs e g "fst nq" qf a b]
    show "dom b = insert e (dom r)" by simp
  qed
qed

lemma store_element_dom:
  assumes "store_element lib conv ffs qtos1 eg r = Inr r'"
  shows "dom r' = insert (fst eg) (dom r)"
proof -
  from assms have "for_each (store_qto lib conv ffs (fst eg) (snd eg)) qtos1 (setdefault r (fst eg) Map.empty) = Inr r'"
    by (simp add: store_element_def)
  then show ?thesis
  proof (rule for_each_invariant)
    show "dom (setdefault r (fst eg) Map.empty) = insert (fst eg) (dom r)"
      by (rule dom_setdefault)
  next
    fix nq a b
    assume "dom a = insert (fst eg) (dom r)" "store_qto lib conv ffs (fst eg) (snd eg) nq a = Inr b"
    with store_qto_dom [of lib conv ffs "fst eg" "snd eg" nq a b]
    show "dom b = insert (fst eg) (dom r)" by simp
  qed
qed

lemma store_elements_dom:
  "for_each (store_element lib conv ffs qtos1) shapes r = Inr r' \<Longrightarrow> dom r' = dom r \<union> fst ` set shapes"
proof (induction shapes arbitrary: r)
  case Nil
  then show ?case by simp
next
  case (Cons eg shapes)
  from Cons.prems obtain r1 where r1: "store_element lib conv ffs qtos1 eg r = Inr r1"
    "for_each (store_element lib conv ffs qtos1) shapes r1 = Inr r'"
    unfolding for_each_Inr_Cons by blast
  from Cons.IH [OF r1(2)] store_element_dom [OF r1(1)] show ?case by auto
qed

lemma run_task_dom:
  "run_task lib ifc_file conv ffs t r = Inr r' \<Longrightarrow>
     dom r' = dom r \<union> fst ` set (iterator_shapes lib ifc_file (fst t))"
  unfolding run_task_def by (rule store_elements_dom)

lemma IteratorForTypes_next_subset:
  "IteratorForTypes_next lib s elements = Some (d, rest) \<Longrightarrow>
     fst d \<in> set elements \<and> set rest \<subseteq> set elements"
proof (induction lib s elements rule: IteratorForTypes_next.induct)
  case (1 lib s elements)
  show ?case
  proof (cases "elements = []")
    case True
    with "1.prems" show ?thesis by (simp add: IteratorForTypes_next.simps)
  next
    case False
    show ?thesis
    proof (cases "process_shape lib s (last elements)")
      case None
      with False "1.prems" have "IteratorForTypes_next lib s (butlast elements) = Some (d, rest)"
        by (simp add: IteratorForTypes_next.simps [of lib s elements])
      with "1.IH" False None have "fst d \<in> set (butlast elements) \<and> set rest \<subseteq> set (butlast elements)"
        by simp
      then show ?thesis by (auto dest: in_set_butlastD)
    next
      case (Some shape)
      with False "1.prems" have "rest = butlast elements" "d = (last elements, shape)"
        by (simp_all add: IteratorForTypes_next.simps [of lib s elements])
      with False show ?thesis by (auto dest: in_set_butlastD)
    qed
  qed
qed

lemma IteratorForTypes_shapes_subset:
  "fst ` set (IteratorForTypes_shapes lib s elements) \<subseteq> set elements"
proof (induction lib s elements rule: IteratorForTypes_shapes.induct)
  case (1 lib s elements)
  show ?case
  proof (cases "IteratorForTypes_next lib s elements")
    case None
    then show ?thesis by (simp add: IteratorForTypes_shapes.simps [of lib s elements])
  next
    case (Some a)
    obtain d rest where a: "a = (d, rest)" by (cases a)
    from Some a have n: "IteratorForTypes_next lib s elements = Some (d, rest)" by simp
    from IteratorForTypes_next_subset [OF n]
    have sub: "fst d \<in> set elements" "set rest \<subseteq> set elements" by simp_all
    have ih: "fst ` set (IteratorForTypes_shapes lib s rest) \<subseteq> set rest"
      by (rule "1.IH" [OF n refl])
    have "IteratorForTypes_shapes lib s elements = d # IteratorForTypes_shapes lib s rest"
      by (subst IteratorForTypes_shapes.simps) (simp add: n)
    with sub ih show ?thesis by auto
  qed
qed

lemma create_iterators_cases:
  assumes "create_iterators lib ifc_file s elements = Inr its" and "it \<in> set its"
  shows "(\<exists>model. it = IteratorForTypes s (filter (\<lambda>e. is_a_class lib e ''IfcTypeProduct'') elements) model) \<or>
         it = GeomIterator s (cpu_count lib) elements"
  using assms
  by (auto simp: create_iterators_def new_IteratorForTypes_def Let_def
        split: if_splits option.splits sum.splits)

lemma create_iterators_shapes:
  assumes "\<forall>s f n inc. fst ` set (geom_iterator lib s f n inc) \<subseteq> set inc"
    and "create_iterators lib ifc_file s elements = Inr its" and "it \<in> set its"
  shows "fst ` set (iterator_shapes lib ifc_file it) \<subseteq> set elements"
proof -
  from create_iterators_cases [OF assms(2,3)] show ?thesis
  proof (elim disjE exE)
    fix model
    assume "it = IteratorForTypes s (filter (\<lambda>e. is_a_class lib e ''IfcTypeProduct'') elements) model"
    with IteratorForTypes_shapes_subset [of lib s "filter (\<lambda>e. is_a_class lib e ''IfcTypeProduct'') elements"]
    show ?thesis by (auto simp: iterator_shapes_def)
  next
    assume "it = GeomIterator s (cpu_count lib) elements"
    with assms(1) show ?thesis by (simp add: iterator_shapes_def)
  qed
qed

lemma make_tasks_cases:
  assumes "make_tasks lib ifc_file elements st = Inr tasks" and "t \<in> set tasks"
  shows "\<exists>its. create_iterators lib ifc_file gross_settings elements = Inr its \<and> fst t \<in> set its \<and>
           ((snd t = gross_qtos st \<and> gross_qtos st \<noteq> []) \<or> (snd t = net_qtos st \<and> net_qtos st \<noteq> []))"
  using assms
  by (auto simp: make_tasks_def split: if_splits sum.splits)

lemma IfcOpenShell_calculate_dom:
  assumes "\<forall>s f n inc. fst ` set (geom_iterator lib s f n inc) \<subseteq> set inc"
    and "IfcOpenShell_calculate lib ifc_file elements qs r = Inr r'"
  shows "dom r' \<subseteq> dom r \<union> set elements"
proof -
  from assms(2) obtain st tasks where st: "classify_formulas lib qs = Inr st"
    and tasks: "make_tasks lib ifc_file elements st = Inr tasks"
    and run: "for_each (run_task lib ifc_file (SI2ProjectUnitConverter ifc_file) (formula_functions st)) tasks r = Inr r'"
    by (auto simp: IfcOpenShell_calculate_def split: sum.splits)
  from run show ?thesis
  proof (rule for_each_invariant)
    show "dom r \<subseteq> dom r \<union> set elements" by simp
  next
    fix t a b
    assume t: "t \<in> set tasks" and a: "dom a \<subseteq> dom r \<union> set elements"
      and b: "run_task lib ifc_file (SI2ProjectUnitConverter ifc_file) (formula_functions st) t a = Inr b"
    from make_tasks_cases [OF tasks t] obtain its where
      "create_iterators lib ifc_file gross_settings elements = Inr its" "fst t \<in> set its" by blast
    from create_iterators_shapes [OF assms(1) this]
    have "fst ` set (iterator_shapes lib ifc_file (fst t)) \<subseteq> set elements" .
    with run_task_dom [OF b] a show "dom b \<subseteq> dom r \<union> set elements" by auto
  qed
qed

lemma blender_element_cases:
  "blender_element lib conv qs e r = Inr r' \<Longrightarrow> r' = r \<or> (\<exists>element_results. r' = r(e \<mapsto> element_results))"
  by (auto simp: blender_element_def split: option.splits if_splits sum.splits)

lemma blender_element_dom:
  assumes "blender_element lib conv qs e r = Inr r'"
  shows "dom r' \<subseteq> insert e (dom r)"
  using blender_element_cases [OF assms] by (elim disjE exE) auto

lemma Blender_calculate_dom:
  assumes "Blender_calculate lib ifc_file elements qs r = Inr r'"
  shows "dom r' \<subseteq> dom r \<union> set elements"
proof -
  from assms have "for_each (blender_element lib (SI2ProjectUnitConverter ifc_file) qs) elements r = Inr r'"
    by (simp add: Blender_calculate_def)
  then show ?thesis
  proof (rule for_each_invariant)
    show "dom r \<subseteq> dom r \<union> set elements" by simp
  next
    fix e a b
    assume "e \<in> set elements" "dom a \<subseteq> dom r \<union> set elements"
      "blender_element lib (SI2ProjectUnitConverter ifc_file) qs e a = Inr b"
    with blender_element_dom [of lib "SI2ProjectUnitConverter ifc_file" qs e a b]
    show "dom b \<subseteq> dom r \<union> set elements" by blast
  qed
qed

lemma quantify_body_dom:
  assumes calc: "\<And>cname calculator f es q a b. map_of table cname = Some calculator \<Longrightarrow>
        calculator f es q a = Inr b \<Longrightarrow> dom b \<subseteq> dom a \<union> set es"
    and run: "quantify_body table lib ifc_file elements rules (r::results) = Inr r'"
  shows "dom r' \<subseteq> dom r \<union> set elements"
proof -
  let ?bc = "elements_by_classes elements"
  let ?P = "\<lambda>x::results. dom x \<subseteq> dom r \<union> set elements"
  from run obtain cs where
    cs: "for_each (quantify_calculator table lib ifc_file ?bc) cs r = Inr r'"
    by (auto simp: quantify_body_def Let_def split: option.splits)
  have query: "?P b" if "?P a" and "map_of table cname = Some calculator"
    and "quantify_query calculator lib ifc_file ?bc q a = Inr b" for a b :: results and cname calculator q
  proof (cases "filtered_elements lib ifc_file ?bc (fst q) = []")
    case True
    with that show ?thesis by (simp add: quantify_query_def)
  next
    case False
    with that(3) have "calculator ifc_file (filtered_elements lib ifc_file ?bc (fst q)) (snd q) a = Inr b"
      by (simp add: quantify_query_def)
    from calc [OF that(2) this] have "dom b \<subseteq> dom a \<union> matching_elements lib ifc_file elements (fst q)"
      by (simp add: set_filtered_elements)
    moreover have "matching_elements lib ifc_file elements (fst q) \<subseteq> set elements"
      by (auto simp: matching_elements_def)
    ultimately show ?thesis using that(1) by blast
  qed
  have group: "?P b" if "?P a" and "quantify_calculator table lib ifc_file ?bc cq a = Inr b"
    for a b :: results and cq
  proof -
    from that(2) obtain calculator where c: "map_of table (fst cq) = Some calculator"
      and f: "for_each (quantify_query calculator lib ifc_file ?bc) (snd cq) a = Inr b"
      by (auto simp: quantify_calculator_def split: option.splits)
    show ?thesis
    proof (rule for_each_invariant [where P = ?P, OF f that(1)])
      fix q and x y :: results
      assume "q \<in> set (snd cq)" "?P x" "quantify_query calculator lib ifc_file ?bc q x = Inr y"
      then show "?P y" using query [OF _ c] by blast
    qed
  qed
  show ?thesis
  proof (rule for_each_invariant [where P = ?P, OF cs])
    show "?P r" by simp
  next
    fix cq and x y :: results
    assume "cq \<in> set cs" "?P x" "quantify_calculator table lib ifc_file ?bc cq x = Inr y"
    then show "?P y" using group by blast
  qed
qed

text \<open>
  C6. Provided the geometry iterator delivers shapes only for elements of its
  \<open>include\<close> list, every key of the dictionary that \<open>quantify\<close> returns is one of the
  input elements, and each of the two calculators adds keys only for the elements it
  was called with.
\<close>

theorem quantify_keys_are_input_elements:
  assumes "\<forall>s f n inc. fst ` set (geom_iterator lib s f n inc) \<subseteq> set inc"
  shows "(\<forall>r. quantify lib ifc_file elements rules = Inr r \<longrightarrow> dom r \<subseteq> set elements) \<and>
    (\<forall>es q a b. IfcOpenShell_calculate lib ifc_file es q a = Inr b \<longrightarrow> dom b \<subseteq> dom a \<union> set es) \<and>
    (\<forall>es q a b. Blender_calculate lib ifc_file es q a = Inr b \<longrightarrow> dom b \<subseteq> dom a \<union> set es)"
proof (intro conjI allI impI)
  fix r
  assume "quantify lib ifc_file elements rules = Inr r"
  then have q: "quantify_body (calculators lib) lib ifc_file elements rules Map.empty = Inr r"
    by (simp add: quantify_def)
  have "dom r \<subseteq> dom (Map.empty :: results) \<union> set elements"
  proof (rule quantify_body_dom [OF _ q])
    fix cname calculator f es qt and a b :: results
    assume "map_of (calculators lib) cname = Some calculator" "calculator f es qt a = Inr b"
    then show "dom b \<subseteq> dom a \<union> set es"
      using IfcOpenShell_calculate_dom [OF assms, of f es qt a b] Blender_calculate_dom [of lib f es qt a b]
      by (auto simp: map_of_calculators split: if_splits)
  qed
  then show "dom r \<subseteq> set elements" by simp
next
  fix es q a b
  assume "IfcOpenShell_calculate lib ifc_file es q a = Inr b"
  from IfcOpenShell_calculate_dom [OF assms this] show "dom b \<subseteq> dom a \<union> set es" .
next
  fix es q a b
  assume "Blender_calculate lib ifc_file es q a = Inr b"
  from Blender_calculate_dom [OF this] show "dom b \<subseteq> dom a \<union> set es" .
qed

theorem quantify_keys_are_input_elements_witness:
  "\<exists>r. quantify sample_library sample_file [sample_wall, sample_wall_type, sample_door] sample_rules = Inr r \<and>
     dom r = {sample_wall, sample_wall_type, sample_door} \<and>
     dom r \<subseteq> set [sample_wall, sample_wall_type, sample_door]"
proof -
  have iter: "\<forall>s f n inc. fst ` set (geom_iterator sample_library s f n inc) \<subseteq> set inc"
    by (auto simp: sample_library_sel)
  note t = quantify_keys_are_input_elements [OF iter, of sample_file
      "[sample_wall, sample_wall_type, sample_door]" sample_rules]
  from t [THEN conjunct1, THEN spec, THEN mp, OF sample_quantify] sample_quantify
  show ?thesis
    by auto
qed

subsection \<open>Sorting the formulas\<close>

lemma for_each_establish:
  assumes run: "for_each body xs s = Inr r" and x: "x \<in> set xs \<or> Q s" and s: "P s"
    and inv: "\<And>y a b. y \<in> set xs \<Longrightarrow> P a \<Longrightarrow> body y a = Inr b \<Longrightarrow> P b"
    and est: "\<And>a b. P a \<Longrightarrow> body x a = Inr b \<Longrightarrow> Q b"
    and pres: "\<And>y a b. y \<in> set xs \<Longrightarrow> y \<noteq> x \<Longrightarrow> P a \<Longrightarrow> Q a \<Longrightarrow> body y a = Inr b \<Longrightarrow> Q b"
  shows "P r \<and> Q r"
  using run x s inv pres
proof (induction xs arbitrary: s)
  case Nil
  then show ?case by simp
next
  case (Cons y ys)
  from Cons.prems(1) obtain s' where s': "body y s = Inr s'" "for_each body ys s' = Inr r"
    unfolding for_each_Inr_Cons by blast
  have Ps': "P s'" using Cons.prems(4) [of y s s'] Cons.prems(3) s'(1) by simp
  have Qs': "x \<in> set ys \<or> Q s'"
  proof (cases "y = x")
    case True
    with est [OF Cons.prems(3)] s'(1) show ?thesis by simp
  next
    case False
    show ?thesis
    proof (cases "x \<in> set ys")
      case True
      then show ?thesis by simp
    next
      case nin: False
      with False Cons.prems(2) have "Q s" by simp
      with Cons.prems(5) [of y s s'] False Cons.prems(3) s'(1) show ?thesis by simp
    qed
  qed
  show ?case
  proof (rule Cons.IH [OF s'(2) Qs' Ps'])
    fix z a b
    assume "z \<in> set ys" "P a" "body z a = Inr b"
    then show "P b" using Cons.prems(4) [of z a b] by simp
  next
    fix z a b
    assume "z \<in> set ys" "z \<noteq> x" "P a" "Q a" "body z a = Inr b"
    then show "Q b" using Cons.prems(5) [of z a b] by simp
  qed
qed

lemma formula_at_set_formula:
  "formula_at (set_formula n q f d) n' q' =
     (if n' = n \<and> q' = q then Some f else formula_at d n' q')"
  by (auto simp: formula_at_def set_formula_def update_conv' split: option.splits)

lemma keys_distinct_set_formula:
  assumes "keys_distinct d"
  shows "keys_distinct (set_formula n q f d)"
proof -
  let ?inner = "AList.update q f (case map_of d n of None \<Rightarrow> [] | Some m \<Rightarrow> m)"
  have inner: "distinct (map fst ?inner)"
  proof (rule distinct_update)
    show "distinct (map fst (case map_of d n of None \<Rightarrow> [] | Some m \<Rightarrow> m))"
    proof (cases "map_of d n")
      case None
      then show ?thesis by simp
    next
      case (Some m)
      then have "(n, m) \<in> set d" by (rule map_of_SomeD)
      with assms Some show ?thesis by (auto simp: keys_distinct_def)
    qed
  qed
  have "set (AList.update n ?inner d) \<subseteq> insert (n, ?inner) (set d)"
    by (induction d) auto
  with inner assms show ?thesis
    unfolding keys_distinct_def set_formula_def
    by (auto simp: distinct_update)
qed

lemma keys_distinct_formula_at:
  assumes "keys_distinct d" and "(n, m) \<in> set d" and "(q, f) \<in> set m"
  shows "formula_at d n q = Some f"
proof -
  from assms have "map_of d n = Some m" by (simp add: keys_distinct_def)
  moreover from assms have "distinct (map fst m)" by (auto simp: keys_distinct_def)
  with assms(3) have "map_of m q = Some f" by simp
  ultimately show ?thesis by (simp add: formula_at_def)
qed

lemma formula_at_member:
  assumes "formula_at d n q = Some f"
  shows "\<exists>m. (n, m) \<in> set d \<and> (q, f) \<in> set m"
  using assms by (auto simp: formula_at_def split: option.splits dest: map_of_SomeD)

lemma put_formula_sel:
  "formula_functions (put_formula g n q f st) = formula_functions st"
  "formula_at (gross_qtos (put_formula g n q f st)) n' q' =
     (if g \<and> n' = n \<and> q' = q then Some f else formula_at (gross_qtos st) n' q')"
  "formula_at (net_qtos (put_formula g n q f st)) n' q' =
     (if \<not> g \<and> n' = n \<and> q' = q then Some f else formula_at (net_qtos st) n' q')"
  "keys_distinct (gross_qtos st) \<Longrightarrow> keys_distinct (gross_qtos (put_formula g n q f st))"
  "keys_distinct (net_qtos st) \<Longrightarrow> keys_distinct (net_qtos (put_formula g n q f st))"
  by (simp_all add: put_formula_def formula_at_set_formula keys_distinct_set_formula)

lemma classify_formula_sorted_state:
  assumes "classify_formula lib n qf st = Inr st'" and "sorted_state lib st"
  shows "sorted_state lib st'"
  using assms
  by (auto simp: classify_formula_def Let_def sorted_state_def put_formula_sel
      split: option.splits if_splits)

lemma classify_formula_other_key:
  assumes "classify_formula lib n qf st = Inr st'" and "(n, fst qf) \<noteq> (name, quantity)"
  shows "formula_at (gross_qtos st') name quantity = formula_at (gross_qtos st) name quantity \<and>
         formula_at (net_qtos st') name quantity = formula_at (net_qtos st) name quantity"
  using assms
  by (auto simp: classify_formula_def Let_def put_formula_sel split: option.splits if_splits)

lemma classify_formula_gross:
  assumes "classify_formula lib n (q, Some formula) st = Inr st'" and "formula = ''gross_'' @ F"
  shows "formula_at (gross_qtos st') n q = Some F \<and>
         formula_at (net_qtos st') n q = formula_at (net_qtos st) n q"
proof -
  from assms(2) have f: "partition_tail CHR ''_'' formula = F" "startswith formula ''gross_''" "formula \<noteq> []"
    by (simp_all add: partition_tail_def startswith_def)
  from assms(1) f show ?thesis
    by (auto simp: classify_formula_def Let_def put_formula_sel split: option.splits if_splits)
qed

lemma classify_formula_net:
  assumes "classify_formula lib n (q, Some formula) st = Inr st'" and "formula = ''net_'' @ F"
  shows "formula_at (net_qtos st') n q = Some F \<and>
         formula_at (gross_qtos st') n q = formula_at (gross_qtos st) n q"
proof -
  from assms(2) have f: "partition_tail CHR ''_'' formula = F" "\<not> startswith formula ''gross_''"
      "startswith formula ''net_''" "formula \<noteq> []"
    by (simp_all add: partition_tail_def startswith_def)
  from assms(1) f show ?thesis
    by (auto simp: classify_formula_def Let_def put_formula_sel split: option.splits if_splits)
qed

lemma classify_formula_target:
  assumes "classify_formula lib n (q, Some formula) st = Inr st'"
    and "formula = (if g then ''gross_'' else ''net_'') @ F"
  shows "formula_at (if g then gross_qtos st' else net_qtos st') n q = Some F \<and>
         formula_at (if g then net_qtos st' else gross_qtos st') n q =
           formula_at (if g then net_qtos st else gross_qtos st) n q"
proof (cases g)
  case True
  with assms(2) have "formula = ''gross_'' @ F" by simp
  from classify_formula_gross [OF assms(1) this] True show ?thesis by simp
next
  case False
  with assms(2) have "formula = ''net_'' @ F" by simp
  from classify_formula_net [OF assms(1) this] False show ?thesis by simp
qed

lemma keys_distinct_same_key:
  assumes "keys_distinct d" and "(n, m) \<in> set d" and "(q, v) \<in> set m"
    and "(n, m') \<in> set d" and "(q, v') \<in> set m'"
  shows "v' = v"
proof -
  from assms(1,2,4) have "m' = m"
    by (auto simp: keys_distinct_def dest: eq_key_imp_eq_value)
  moreover from assms(1,2) have "distinct (map fst m)" by (auto simp: keys_distinct_def)
  ultimately show ?thesis using assms(3,5) by (auto dest: eq_key_imp_eq_value)
qed

lemma classify_formulas_entry:
  assumes run: "classify_formulas lib qs = Inr st"
    and wf: "keys_distinct qs"
    and nq: "(name, quantities) \<in> set qs" and qf: "(quantity, Some formula) \<in> set quantities"
    and form: "formula = (if g then ''gross_'' else ''net_'') @ F"
  shows "sorted_state lib st \<and>
    formula_at (if g then gross_qtos st else net_qtos st) name quantity = Some F \<and>
    formula_at (if g then net_qtos st else gross_qtos st) name quantity = None"
proof -
  let ?this_d = "\<lambda>st. formula_at (if g then gross_qtos st else net_qtos st) name quantity"
  let ?other_d = "\<lambda>st. formula_at (if g then net_qtos st else gross_qtos st) name quantity"
  let ?Q = "\<lambda>st. ?this_d st = Some F \<and> ?other_d st = None"
  let ?P = "\<lambda>st. sorted_state lib st \<and> ?other_d st = None"
  let ?st0 = "\<lparr>gross_qtos = [], net_qtos = [], formula_functions = Map.empty\<rparr>"
  have good: "snd e = Some formula" if "(n, qu) \<in> set qs" "e \<in> set qu" "n = name" "fst e = quantity" for n qu e
  proof -
    from that have "(name, qu) \<in> set qs" "(quantity, snd e) \<in> set qu" by auto
    from keys_distinct_same_key [OF wf nq qf this] show ?thesis .
  qed
  have step: "?P b \<and> (?Q a \<longrightarrow> ?Q b) \<and> ((n, fst e) = (name, quantity) \<longrightarrow> ?Q b)"
    if "(n, qu) \<in> set qs" "e \<in> set qu" "?P a" "classify_formula lib n e a = Inr b" for n qu e a b
  proof (cases "(n, fst e) = (name, quantity)")
    case True
    with good [OF that(1,2)] have e: "e = (quantity, Some formula)" "n = name"
      by (auto simp: prod_eq_iff)
    from that(4) e have "classify_formula lib name (quantity, Some formula) a = Inr b" by simp
    from classify_formula_target [OF this form] that(3)
    have "?Q b" by simp
    with classify_formula_sorted_state [OF that(4)] that(3) True show ?thesis by simp
  next
    case False
    from classify_formula_other_key [OF that(4) False]
    have "?this_d b = ?this_d a" "?other_d b = ?other_d a" by auto
    with classify_formula_sorted_state [OF that(4)] that(3) False show ?thesis by auto
  qed
  have inner: "?P b \<and> (?Q a \<longrightarrow> ?Q b)"
    if "(n, qu) \<in> set qs" "?P a" "for_each (classify_formula lib n) qu a = Inr b" for n qu a b
  proof -
    have "(?P b \<and> (?Q a \<longrightarrow> ?Q b))"
    proof (rule for_each_invariant [where P = "\<lambda>x. ?P x \<and> (?Q a \<longrightarrow> ?Q x)", OF that(3)])
      show "?P a \<and> (?Q a \<longrightarrow> ?Q a)" using that(2) by simp
    next
      fix e x y
      assume "e \<in> set qu" "?P x \<and> (?Q a \<longrightarrow> ?Q x)" "classify_formula lib n e x = Inr y"
      with step [OF that(1), of e x y] show "?P y \<and> (?Q a \<longrightarrow> ?Q y)" by blast
    qed
    then show ?thesis .
  qed
  have target: "?Q b" if "?P a" "for_each (classify_formula lib name) quantities a = Inr b" for a b
  proof -
    have "?P b \<and> ?Q b"
    proof (rule for_each_establish [where P = ?P and Q = ?Q and x = "(quantity, Some formula)", OF that(2)])
      show "(quantity, Some formula) \<in> set quantities \<or> ?Q a" using qf by simp
      show "?P a" by (rule that(1))
    next
      fix e x y
      assume "e \<in> set quantities" "?P x" "classify_formula lib name e x = Inr y"
      with step [OF nq, of e x y] show "?P y" by blast
    next
      fix x y
      assume "?P x" "classify_formula lib name (quantity, Some formula) x = Inr y"
      with step [OF nq qf, of x y] show "?Q y" by simp
    next
      fix e x y
      assume "e \<in> set quantities" "e \<noteq> (quantity, Some formula)" "?P x" "?Q x"
        "classify_formula lib name e x = Inr y"
      with step [OF nq, of e x y] show "?Q y" by blast
    qed
    then show ?thesis by simp
  qed
  from run have outer: "for_each (\<lambda>(n, qu). for_each (classify_formula lib n) qu) qs ?st0 = Inr st"
    by (simp add: classify_formulas_def)
  have "?P st \<and> ?Q st"
  proof (rule for_each_establish [where P = ?P and Q = ?Q and x = "(name, quantities)", OF outer])
    show "(name, quantities) \<in> set qs \<or> ?Q ?st0" using nq by simp
    show "?P ?st0" by (simp add: sorted_state_def keys_distinct_def formula_at_def)
  next
    fix y x z
    assume "y \<in> set qs" "?P x" "(case y of (n, qu) \<Rightarrow> for_each (classify_formula lib n) qu) x = Inr z"
    then show "?P z" using inner [of "fst y" "snd y" x z] by (simp add: case_prod_unfold)
  next
    fix x z
    assume "?P x" "(case (name, quantities) of (n, qu) \<Rightarrow> for_each (classify_formula lib n) qu) x = Inr z"
    then show "?Q z" using target [of x z] by simp
  next
    fix y x z
    assume "y \<in> set qs" "y \<noteq> (name, quantities)" "?P x" "?Q x"
      "(case y of (n, qu) \<Rightarrow> for_each (classify_formula lib n) qu) x = Inr z"
    then show "?Q z" using inner [of "fst y" "snd y" x z] by (simp add: case_prod_unfold)
  qed
  then show ?thesis by simp
qed

subsection \<open>What the loop of calculate stores\<close>

lemma result_at_assign:
  "result_at (assign_result r e' n' q' v) e n q =
     (if e = e' \<and> n = n' \<and> q = q' then Some v else result_at r e n q)"
  by (auto simp: result_at_def assign_result_def Let_def split: option.splits)

lemma result_at_setdefault:
  "result_at (setdefault r e' Map.empty) e n q = result_at r e n q"
  by (auto simp: result_at_def setdefault_def split: option.splits)

lemma result_at_setdefault_name:
  "result_at (setdefault_name r e' n') e n q = result_at r e n q"
  by (auto simp: result_at_def setdefault_name_def setdefault_def split: option.splits)

lemma store_quantity_other:
  assumes "store_quantity lib conv ffs e' g n' qf r = Inr r'"
    and "e' \<noteq> e \<or> n' \<noteq> n \<or> fst qf \<noteq> q"
  shows "result_at r' e n q = result_at r e n q"
proof -
  from store_quantity_assigns [OF assms(1)] obtain v where "r' = assign_result r e' n' (fst qf) v" ..
  with assms(2) show ?thesis by (auto simp: result_at_assign)
qed

lemma store_quantity_value:
  assumes "store_quantity lib conv ffs e g n qf r = Inr r'" and "snd qf \<noteq> ''get_segment_length''"
  shows "\<exists>v. converted_value lib conv ffs (snd qf) g v \<and> result_at r' e n (fst qf) = Some (Some v)"
  using assms
  by (auto simp: store_quantity_def converted_value_def result_at_assign
      split: option.splits sum.splits)

lemma store_qto_other:
  assumes "store_qto lib conv ffs e' g nq r = Inr r'"
    and "e' \<noteq> e \<or> fst nq \<noteq> n \<or> q \<notin> fst ` set (snd nq)"
  shows "result_at r' e n q = result_at r e n q"
proof -
  from assms(1) have run: "for_each (store_quantity lib conv ffs e' g (fst nq)) (snd nq)
      (setdefault_name r e' (fst nq)) = Inr r'"
    by (simp add: store_qto_def)
  show ?thesis
  proof (rule for_each_invariant [where P = "\<lambda>x. result_at x e n q = result_at r e n q", OF run])
    show "result_at (setdefault_name r e' (fst nq)) e n q = result_at r e n q"
      by (rule result_at_setdefault_name)
  next
    fix qf a b
    assume qf: "qf \<in> set (snd nq)" and a: "result_at a e n q = result_at r e n q"
      and b: "store_quantity lib conv ffs e' g (fst nq) qf a = Inr b"
    from assms(2) qf have "e' \<noteq> e \<or> fst nq \<noteq> n \<or> fst qf \<noteq> q" by auto
    from store_quantity_other [OF b this] a show "result_at b e n q = result_at r e n q" by simp
  qed
qed

lemma store_qto_value:
  assumes "store_qto lib conv ffs e g nq r = Inr r'"
    and "distinct (map fst (snd nq))" and "(q, F) \<in> set (snd nq)" and "F \<noteq> ''get_segment_length''"
  shows "\<exists>v. converted_value lib conv ffs F g v \<and> result_at r' e (fst nq) q = Some (Some v)"
proof -
  let ?Q = "\<lambda>x. \<exists>v. converted_value lib conv ffs F g v \<and> result_at x e (fst nq) q = Some (Some v)"
  from assms(1) have run: "for_each (store_quantity lib conv ffs e g (fst nq)) (snd nq)
      (setdefault_name r e (fst nq)) = Inr r'"
    by (simp add: store_qto_def)
  have "True \<and> ?Q r'"
  proof (rule for_each_establish [where P = "\<lambda>x. True" and Q = ?Q and x = "(q, F)", OF run])
    show "(q, F) \<in> set (snd nq) \<or> ?Q (setdefault_name r e (fst nq))" using assms(3) by simp
  next
    fix a b
    assume "store_quantity lib conv ffs e g (fst nq) (q, F) a = Inr b"
    from store_quantity_value [OF this] assms(4) show "?Q b" by simp
  next
    fix y a b
    assume y: "y \<in> set (snd nq)" "y \<noteq> (q, F)" and a: "?Q a"
      and b: "store_quantity lib conv ffs e g (fst nq) y a = Inr b"
    from y assms(2,3) have "fst y \<noteq> q"
      by (metis eq_key_imp_eq_value prod.collapse)
    then have "e \<noteq> e \<or> fst nq \<noteq> fst nq \<or> fst y \<noteq> q" by simp
    from store_quantity_other [OF b this] a show "?Q b" by simp
  qed simp_all
  then show ?thesis by simp
qed

lemma formula_at_None:
  assumes "keys_distinct d" and "formula_at d n q = None" and "nq \<in> set d"
  shows "fst nq \<noteq> n \<or> q \<notin> fst ` set (snd nq)"
proof (cases "fst nq = n")
  case False
  then show ?thesis by simp
next
  case True
  with assms(3) have "(n, snd nq) \<in> set d" by (metis prod.collapse)
  with assms(1) have "map_of d n = Some (snd nq)" by (simp add: keys_distinct_def)
  with assms(2) have "map_of (snd nq) q = None" by (simp add: formula_at_def)
  then show ?thesis by (simp add: map_of_eq_None_iff)
qed

lemma store_element_other:
  assumes "store_element lib conv ffs qtos1 eg r = Inr r'"
    and "fst eg \<noteq> e \<or> (keys_distinct qtos1 \<and> formula_at qtos1 n q = None)"
  shows "result_at r' e n q = result_at r e n q"
proof -
  from assms(1) have run: "for_each (store_qto lib conv ffs (fst eg) (snd eg)) qtos1
      (setdefault r (fst eg) Map.empty) = Inr r'"
    by (simp add: store_element_def)
  show ?thesis
  proof (rule for_each_invariant [where P = "\<lambda>x. result_at x e n q = result_at r e n q", OF run])
    show "result_at (setdefault r (fst eg) Map.empty) e n q = result_at r e n q"
      by (rule result_at_setdefault)
  next
    fix nq a b
    assume nq: "nq \<in> set qtos1" and a: "result_at a e n q = result_at r e n q"
      and b: "store_qto lib conv ffs (fst eg) (snd eg) nq a = Inr b"
    from assms(2) nq have "fst eg \<noteq> e \<or> fst nq \<noteq> n \<or> q \<notin> fst ` set (snd nq)"
      using formula_at_None [of qtos1 n q nq] by blast
    from store_qto_other [OF b this] a show "result_at b e n q = result_at r e n q" by simp
  qed
qed

lemma store_element_value:
  assumes "store_element lib conv ffs qtos1 eg r = Inr r'"
    and "keys_distinct qtos1" and "formula_at qtos1 n q = Some F" and "F \<noteq> ''get_segment_length''"
  shows "\<exists>v. converted_value lib conv ffs F (snd eg) v \<and> result_at r' (fst eg) n q = Some (Some v)"
proof -
  let ?Q = "\<lambda>x. \<exists>v. converted_value lib conv ffs F (snd eg) v \<and> result_at x (fst eg) n q = Some (Some v)"
  from formula_at_member [OF assms(3)] obtain m where m: "(n, m) \<in> set qtos1" "(q, F) \<in> set m"
    by blast
  from assms(2) m(1) have dm: "distinct (map fst m)" by (auto simp: keys_distinct_def)
  from assms(1) have run: "for_each (store_qto lib conv ffs (fst eg) (snd eg)) qtos1
      (setdefault r (fst eg) Map.empty) = Inr r'"
    by (simp add: store_element_def)
  have "True \<and> ?Q r'"
  proof (rule for_each_establish [where P = "\<lambda>x. True" and Q = ?Q and x = "(n, m)", OF run])
    show "(n, m) \<in> set qtos1 \<or> ?Q (setdefault r (fst eg) Map.empty)" using m(1) by simp
  next
    fix a b
    assume "store_qto lib conv ffs (fst eg) (snd eg) (n, m) a = Inr b"
    from store_qto_value [OF this] dm m(2) assms(4) show "?Q b" by simp
  next
    fix y a b
    assume y: "y \<in> set qtos1" "y \<noteq> (n, m)" and a: "?Q a"
      and b: "store_qto lib conv ffs (fst eg) (snd eg) y a = Inr b"
    from y assms(2) m(1) have "fst y \<noteq> n"
      unfolding keys_distinct_def by (metis eq_key_imp_eq_value prod.collapse)
    then have "fst eg \<noteq> fst eg \<or> fst y \<noteq> n \<or> q \<notin> fst ` set (snd y)" by simp
    from store_qto_other [OF b this] a show "?Q b" by simp
  qed simp_all
  then show ?thesis by simp
qed

lemma store_elements_value:
  assumes "for_each (store_element lib conv ffs qtos1) shapes r = Inr r'"
    and "keys_distinct qtos1" and "formula_at qtos1 n q = Some F" and "F \<noteq> ''get_segment_length''"
    and "set shapes \<subseteq> S"
    and "e \<in> fst ` set shapes \<or>
         (\<exists>g v. (e, g) \<in> S \<and> converted_value lib conv ffs F g v \<and> result_at r e n q = Some (Some v))"
  shows "\<exists>g v. (e, g) \<in> S \<and> converted_value lib conv ffs F g v \<and> result_at r' e n q = Some (Some v)"
  using assms(1,5,6)
proof (induction shapes arbitrary: r)
  case Nil
  then show ?case by simp
next
  case (Cons eg shapes)
  let ?Q = "\<lambda>x. \<exists>g v. (e, g) \<in> S \<and> converted_value lib conv ffs F g v \<and> result_at x e n q = Some (Some v)"
  from Cons.prems(1) obtain r1 where r1: "store_element lib conv ffs qtos1 eg r = Inr r1"
    "for_each (store_element lib conv ffs qtos1) shapes r1 = Inr r'"
    unfolding for_each_Inr_Cons by blast
  from Cons.prems(2) have sub: "set shapes \<subseteq> S" and eg: "eg \<in> S" by simp_all
  have "e \<in> fst ` set shapes \<or> ?Q r1"
  proof (cases "fst eg = e")
    case True
    from store_element_value [OF r1(1) assms(2,3,4)] obtain v where
      "converted_value lib conv ffs F (snd eg) v" "result_at r1 (fst eg) n q = Some (Some v)" by blast
    moreover from True eg have "(e, snd eg) \<in> S" by (metis prod.collapse)
    ultimately have "?Q r1" using True by blast
    then show ?thesis ..
  next
    case False
    then have "fst eg \<noteq> e \<or> (keys_distinct qtos1 \<and> formula_at qtos1 n q = None)" by simp
    from store_element_other [OF r1(1) this] have same: "result_at r1 e n q = result_at r e n q" .
    from Cons.prems(3) False have "e \<in> fst ` set shapes \<or> ?Q r" by auto
    with same show ?thesis by auto
  qed
  from Cons.IH [OF r1(2) sub this] show ?case .
qed

lemma store_elements_other:
  assumes "for_each (store_element lib conv ffs qtos1) shapes r = Inr r'"
    and "keys_distinct qtos1" and "formula_at qtos1 n q = None"
  shows "result_at r' e n q = result_at r e n q"
proof (rule for_each_invariant [where P = "\<lambda>x. result_at x e n q = result_at r e n q", OF assms(1)])
  show "result_at r e n q = result_at r e n q" ..
next
  fix eg a b
  assume a: "result_at a e n q = result_at r e n q"
    and b: "store_element lib conv ffs qtos1 eg a = Inr b"
  from assms(2,3) have "fst eg \<noteq> e \<or> (keys_distinct qtos1 \<and> formula_at qtos1 n q = None)" by simp
  from store_element_other [OF b this] a show "result_at b e n q = result_at r e n q" by simp
qed

lemma run_tasks_value:
  assumes "for_each (run_task lib ifc_file conv ffs) tasks r = Inr r'"
    and "F \<noteq> ''get_segment_length''"
    and "\<forall>t \<in> set tasks. keys_distinct (snd t) \<and>
           (formula_at (snd t) n q = Some F \<or> formula_at (snd t) n q = None) \<and>
           set (iterator_shapes lib ifc_file (fst t)) \<subseteq> S"
    and "(\<exists>t \<in> set tasks. formula_at (snd t) n q = Some F \<and>
            e \<in> fst ` set (iterator_shapes lib ifc_file (fst t))) \<or>
         (\<exists>g v. (e, g) \<in> S \<and> converted_value lib conv ffs F g v \<and> result_at r e n q = Some (Some v))"
  shows "\<exists>g v. (e, g) \<in> S \<and> converted_value lib conv ffs F g v \<and> result_at r' e n q = Some (Some v)"
  using assms(1,3,4)
proof (induction tasks arbitrary: r)
  case Nil
  then show ?case by simp
next
  case (Cons t tasks)
  let ?Q = "\<lambda>x. \<exists>g v. (e, g) \<in> S \<and> converted_value lib conv ffs F g v \<and> result_at x e n q = Some (Some v)"
  let ?has = "\<lambda>t. formula_at (snd t) n q = Some F \<and> e \<in> fst ` set (iterator_shapes lib ifc_file (fst t))"
  from Cons.prems(1) obtain r1 where r1: "run_task lib ifc_file conv ffs t r = Inr r1"
    "for_each (run_task lib ifc_file conv ffs) tasks r1 = Inr r'"
    unfolding for_each_Inr_Cons by blast
  from r1(1) have run: "for_each (store_element lib conv ffs (snd t)) (iterator_shapes lib ifc_file (fst t)) r = Inr r1"
    by (simp add: run_task_def)
  from Cons.prems(2) have t: "keys_distinct (snd t)"
    "formula_at (snd t) n q = Some F \<or> formula_at (snd t) n q = None"
    "set (iterator_shapes lib ifc_file (fst t)) \<subseteq> S"
    and rest: "\<forall>t \<in> set tasks. keys_distinct (snd t) \<and>
           (formula_at (snd t) n q = Some F \<or> formula_at (snd t) n q = None) \<and>
           set (iterator_shapes lib ifc_file (fst t)) \<subseteq> S"
    by simp_all
  have "(\<exists>t \<in> set tasks. ?has t) \<or> ?Q r1"
  proof (cases "\<exists>t \<in> set tasks. ?has t")
    case True
    then show ?thesis ..
  next
    case False
    with Cons.prems(3) have now: "?has t \<or> ?Q r" by auto
    from t(2) show ?thesis
    proof
      assume f: "formula_at (snd t) n q = Some F"
      from now have "e \<in> fst ` set (iterator_shapes lib ifc_file (fst t)) \<or> ?Q r" by blast
      from store_elements_value [OF run t(1) f assms(2) t(3) this] show ?thesis ..
    next
      assume f: "formula_at (snd t) n q = None"
      with now have "?Q r" by simp
      with store_elements_other [OF run t(1) f, of e] have "?Q r1" by simp
      then show ?thesis ..
    qed
  qed
  from Cons.IH [OF r1(2) rest this] show ?case .
qed

lemma make_tasks_member:
  assumes "make_tasks lib ifc_file elements st = Inr tasks"
    and "create_iterators lib ifc_file gross_settings elements = Inr its" and "it \<in> set its"
  shows "(gross_qtos st \<noteq> [] \<longrightarrow> (it, gross_qtos st) \<in> set tasks) \<and>
         (net_qtos st \<noteq> [] \<longrightarrow> (it, net_qtos st) \<in> set tasks)"
  using assms
  by (auto simp: make_tasks_def split: if_splits)

lemma formula_at_nonempty: "formula_at d n q = Some F \<Longrightarrow> d \<noteq> []"
  by (auto simp: formula_at_def)

text \<open>
  The entry that \<open>calculate\<close> leaves in the results for a gross or net formula other
  than \<open>get_segment_length\<close>, on an element for which an iterator delivers a shape.
\<close>

lemma calculate_stored_value:
  assumes calc: "IfcOpenShell_calculate lib ifc_file elements qs r0 = Inr r"
    and wf: "keys_distinct qs"
    and nq: "(name, quantities) \<in> set qs" and qf: "(quantity, Some formula) \<in> set quantities"
    and form: "formula = (if g then ''gross_'' else ''net_'') @ F"
    and F: "F \<noteq> ''get_segment_length''"
    and its: "create_iterators lib ifc_file gross_settings elements = Inr its"
    and it0: "it0 \<in> set its" "(e, g0) \<in> set (iterator_shapes lib ifc_file it0)"
  shows "\<exists>it geom fn f v. it \<in> set its \<and> (e, geom) \<in> set (iterator_shapes lib ifc_file it) \<and>
     shape_getattr lib F = Some fn \<and> map_of raw_functions F = Some f \<and>
     convert lib (SI2ProjectUnitConverter ifc_file) (fn geom) (fn_measure f) = Inr v \<and>
     result_at r e name quantity = Some (Some v)"
proof -
  let ?conv = "SI2ProjectUnitConverter ifc_file"
  let ?S = "{eg. \<exists>it \<in> set its. eg \<in> set (iterator_shapes lib ifc_file it)}"
  from calc obtain st tasks where st: "classify_formulas lib qs = Inr st"
    and tasks: "make_tasks lib ifc_file elements st = Inr tasks"
    and run: "for_each (run_task lib ifc_file ?conv (formula_functions st)) tasks r0 = Inr r"
    by (auto simp: IfcOpenShell_calculate_def split: sum.splits)
  let ?this_d = "if g then gross_qtos st else net_qtos st"
  let ?other_d = "if g then net_qtos st else gross_qtos st"
  from classify_formulas_entry [OF st wf nq qf form]
  have sorted: "sorted_state lib st" and this_d: "formula_at ?this_d name quantity = Some F"
    and other_d: "formula_at ?other_d name quantity = None"
    by simp_all
  have all: "\<forall>t \<in> set tasks. keys_distinct (snd t) \<and>
           (formula_at (snd t) name quantity = Some F \<or> formula_at (snd t) name quantity = None) \<and>
           set (iterator_shapes lib ifc_file (fst t)) \<subseteq> ?S"
  proof
    fix t
    assume "t \<in> set tasks"
    from make_tasks_cases [OF tasks this] its
    have t: "fst t \<in> set its" "snd t = gross_qtos st \<or> snd t = net_qtos st" by auto
    from t(2) sorted have "keys_distinct (snd t)" by (auto simp: sorted_state_def)
    moreover from t(2) this_d other_d
    have "formula_at (snd t) name quantity = Some F \<or> formula_at (snd t) name quantity = None"
      by (cases g) auto
    moreover from t(1) have "set (iterator_shapes lib ifc_file (fst t)) \<subseteq> ?S" by auto
    ultimately show "keys_distinct (snd t) \<and>
           (formula_at (snd t) name quantity = Some F \<or> formula_at (snd t) name quantity = None) \<and>
           set (iterator_shapes lib ifc_file (fst t)) \<subseteq> ?S" by simp
  qed
  from formula_at_nonempty [OF this_d] make_tasks_member [OF tasks its it0(1)]
  have "(it0, ?this_d) \<in> set tasks" by (cases g) simp_all
  moreover from it0(2) have "e \<in> fst ` set (iterator_shapes lib ifc_file it0)" by force
  ultimately have "\<exists>t \<in> set tasks. formula_at (snd t) name quantity = Some F \<and>
            e \<in> fst ` set (iterator_shapes lib ifc_file (fst t))"
    using this_d by force
  then have "(\<exists>t \<in> set tasks. formula_at (snd t) name quantity = Some F \<and>
            e \<in> fst ` set (iterator_shapes lib ifc_file (fst t))) \<or>
         (\<exists>g v. (e, g) \<in> ?S \<and> converted_value lib ?conv (formula_functions st) F g v \<and>
            result_at r0 e name quantity = Some (Some v))" ..
  from run_tasks_value [OF run F all this] obtain geom v where
    geom: "(e, geom) \<in> ?S" and cv: "converted_value lib ?conv (formula_functions st) F geom v"
    and res: "result_at r e name quantity = Some (Some v)" by blast
  from geom obtain it where it: "it \<in> set its" "(e, geom) \<in> set (iterator_shapes lib ifc_file it)" by blast
  from cv obtain fn f where fn: "formula_functions st F = Some fn" "map_of raw_functions F = Some f"
    "convert lib ?conv (fn geom) (fn_measure f) = Inr v"
    unfolding converted_value_def by blast
  from sorted fn(1) have "shape_getattr lib F = Some fn" by (simp add: sorted_state_def)
  with it fn(2,3) res show ?thesis by blast
qed

subsection \<open>Conversion to the project units\<close>






text \<open>
  C4. Take a formula \<open>gross_F\<close> or \<open>net_F\<close> of the rules with \<open>F\<close> other than
  \<open>get_segment_length\<close>, and an element for which one of the iterators of
  \<open>calculate\<close> delivers a shape. When \<open>calculate\<close> returns, the function named \<open>F\<close>
  exists in the shape module (the name is the formula without its prefix), and the
  entry of the results for the element, quantity set and quantity is that function
  applied to a geometry the iterators deliver for the element, passed through the
  unit converter for the measure of \<open>F\<close>.
\<close>

theorem calculate_applies_shape_function:
  assumes "IfcOpenShell_calculate lib ifc_file elements qs r0 = Inr r"
    and "keys_distinct qs"
    and "(name, quantities) \<in> set qs" and "(quantity, Some formula) \<in> set quantities"
    and "formula = ''gross_'' @ F \<or> formula = ''net_'' @ F"
    and "F \<noteq> ''get_segment_length''"
    and "create_iterators lib ifc_file gross_settings elements = Inr its"
    and "it0 \<in> set its" and "(e, g0) \<in> set (iterator_shapes lib ifc_file it0)"
  shows "\<exists>it geom fn f v. it \<in> set its \<and> (e, geom) \<in> set (iterator_shapes lib ifc_file it) \<and>
     shape_getattr lib F = Some fn \<and> map_of raw_functions F = Some f \<and>
     convert lib (SI2ProjectUnitConverter ifc_file) (fn geom) (fn_measure f) = Inr v \<and>
     result_at r e name quantity = Some (Some v)"
proof -
  from assms(5) have "formula = (if True then ''gross_'' else ''net_'') @ F \<or>
      formula = (if False then ''gross_'' else ''net_'') @ F"
    by simp
  then show ?thesis
  proof
    assume "formula = (if True then ''gross_'' else ''net_'') @ F"
    from calculate_stored_value [OF assms(1-4) this assms(6-9)] show ?thesis .
  next
    assume "formula = (if False then ''gross_'' else ''net_'') @ F"
    from calculate_stored_value [OF assms(1-4) this assms(6-9)] show ?thesis .
  qed
qed


lemma sample_geom_shapes:
  "iterator_shapes sample_library sample_file (GeomIterator gross_settings 4 [sample_wall_type, sample_wall])
     = [(sample_wall, \<lparr>verts = [2, 3], faces = [0]\<rparr>)]"
  by (simp add: iterator_shapes_def sample_library_sel sample_elements)

lemma sample_keys_distinct: "keys_distinct sample_wall_qtos"
  by (simp add: keys_distinct_def sample_wall_qtos_def)

theorem calculate_applies_shape_function_witness:
  "\<exists>r. IfcOpenShell_calculate sample_library sample_file [sample_wall_type, sample_wall]
          sample_wall_qtos Map.empty = Inr r \<and>
     map_option (\<lambda>fn. fn \<lparr>verts = [2, 3], faces = [0]\<rparr>)
       (shape_getattr sample_library ''get_volume'') = Some 5 \<and>
     result_at r sample_wall ''Qto_WallBaseQuantities'' ''NetVolume'' = Some (Some 5)"
proof -
  let ?r = "[sample_wall_type \<mapsto> [''Qto_WallBaseQuantities'' \<mapsto> [''Length'' \<mapsto> Some 4000, ''NetVolume'' \<mapsto> Some 9]],
          sample_wall \<mapsto> [''Qto_WallBaseQuantities'' \<mapsto> [''Length'' \<mapsto> Some 2000, ''NetVolume'' \<mapsto> Some 5]]]"
  have nq: "(''Qto_WallBaseQuantities'',
       [(''Length'', Some ''gross_get_x''), (''NetVolume'', Some ''net_get_volume'')]) \<in> set sample_wall_qtos"
    by (simp add: sample_wall_qtos_def)
  have qf: "(''NetVolume'', Some ''net_get_volume'') \<in>
      set [(''Length'', Some ''gross_get_x''), (''NetVolume'', Some ''net_get_volume'')]"
    by simp
  have form: "''net_get_volume'' = ''gross_'' @ ''get_volume'' \<or> ''net_get_volume'' = ''net_'' @ ''get_volume''"
    by simp
  have F: "''get_volume'' \<noteq> ''get_segment_length''" by simp
  have it0: "GeomIterator gross_settings 4 [sample_wall_type, sample_wall] \<in>
      set [IteratorForTypes gross_settings [sample_wall_type] 5,
          GeomIterator gross_settings 4 [sample_wall_type, sample_wall]]"
    by simp
  have sh: "(sample_wall, \<lparr>verts = [2, 3], faces = [0]\<rparr>) \<in>
      set (iterator_shapes sample_library sample_file (GeomIterator gross_settings 4 [sample_wall_type, sample_wall]))"
    by (simp add: sample_geom_shapes)
  from calculate_applies_shape_function [OF sample_calculate sample_keys_distinct nq qf form F
      sample_iterators it0 sh]
  have res: "result_at ?r sample_wall ''Qto_WallBaseQuantities'' ''NetVolume'' = Some (Some 5)"
    by (simp add: result_at_def sample_elements)
  have fn: "map_option (\<lambda>fn. fn \<lparr>verts = [2, 3], faces = [0]\<rparr>)
       (shape_getattr sample_library ''get_volume'') = Some 5"
    by (simp add: sample_library_sel)
  show ?thesis
    by (rule exI [of _ ?r]) (simp only: sample_calculate res fn simp_thms)
qed


subsection \<open>The file object\<close>

text \<open>A loop whose body leaves the file as it is leaves the file as it is.\<close>

lemma for_each_op_unchanged:
  assumes "\<And>x r. x \<in> set xs \<Longrightarrow> body_op x r s = (body x r, s)"
  shows "for_each_op body_op xs r s = (for_each body xs r, s)"
  using assms
proof (induction xs arbitrary: r)
  case Nil
  then show ?case by (simp add: ret_def)
next
  case (Cons x xs)
  from Cons.prems have x: "body_op x r s = (body x r, s)" by simp
  show ?case
  proof (cases "body x r")
    case (Inl e)
    with x show ?thesis by (simp add: then_do_def)
  next
    case (Inr r1)
    with x Cons.IH [of r1] Cons.prems show ?thesis by (simp add: then_do_def)
  qed
qed

lemma converter_loop_unchanged:
  assumes "\<And>t. api_get_project_unit api t s = (get_project_unit (view s) t, s)"
  shows "for_each_op (project_unit_op api) ts acc s =
     (Inr (acc @ map (\<lambda>(measure_name, unit_type).
        (measure_name, map_option unit_pair (get_project_unit (view s) unit_type))) ts), s)"
proof (induction ts arbitrary: acc)
  case Nil
  show ?case by (simp add: ret_def)
next
  case (Cons t ts)
  have step: "project_unit_op api t acc s =
      (Inr (acc @ [(fst t, map_option unit_pair (get_project_unit (view s) (snd t)))]), s)"
    by (simp add: project_unit_op_def then_do_def call_def ret_def assms)
  show ?case
    by (simp add: then_do_def step Cons.IH case_prod_unfold)
qed

lemma SI2ProjectUnitConverter_op_unchanged:
  assumes "reads_only api view lib"
  shows "SI2ProjectUnitConverter_op api s = (Inr (SI2ProjectUnitConverter (view s)), s)"
proof -
  from assms have "\<And>t. api_get_project_unit api t s = (get_project_unit (view s) t, s)"
    by (simp add: reads_only_def)
  from converter_loop_unchanged [of api s view unit_types "[]", OF this] show ?thesis
    by (simp add: SI2ProjectUnitConverter_op_def SI2ProjectUnitConverter_def)
qed

lemma create_iterators_op_unchanged:
  assumes "reads_only api view lib"
  shows "create_iterators_op api lib st elements s = (create_iterators lib (view s) st elements, s)"
proof -
  from assms have c: "api_get_context api s = (body_context (view s), s)"
    by (simp add: reads_only_def)
  show ?thesis
    by (simp add: create_iterators_op_def create_iterators_def new_IteratorForTypes_op_def
        new_IteratorForTypes_def Let_def then_do_def call_def ret_def raise_def c
        split: option.splits)
qed

lemma make_tasks_op_unchanged:
  assumes "reads_only api view lib"
  shows "make_tasks_op api lib elements st s = (make_tasks lib (view s) elements st, s)"
  by (simp add: make_tasks_op_def make_tasks_def then_do_def ret_def
      create_iterators_op_unchanged [OF assms] split: sum.splits)

lemma run_task_op_unchanged:
  assumes "reads_only api view lib"
  shows "run_task_op api lib conv ffs t r s = (run_task lib (view s) conv ffs t r, s)"
proof -
  from assms have g: "\<And>st n inc. api_geom_iterator api st n inc s = (geom_iterator lib st (view s) n inc, s)"
    by (simp add: reads_only_def)
  show ?thesis
    by (cases "fst t")
       (simp_all add: run_task_op_def run_task_def iterator_shapes_op_def iterator_shapes_def
          then_do_def ret_def call_def pure_step_def g)
qed

lemma IfcOpenShell_calculate_op_unchanged:
  assumes "reads_only api view lib"
  shows "IfcOpenShell_calculate_op api lib elements qs r s =
           (IfcOpenShell_calculate lib (view s) elements qs r, s)"
proof -
  from assms have u: "snd (api_calculate_unit_scale api s) = s"
    by (simp add: reads_only_def)
  have loop: "for_each_op (run_task_op api lib conv ffs) tasks r s =
      (for_each (run_task lib (view s) conv ffs) tasks r, s)" for conv ffs tasks
    by (rule for_each_op_unchanged) (rule run_task_op_unchanged [OF assms])
  show ?thesis
    by (simp add: IfcOpenShell_calculate_op_def IfcOpenShell_calculate_def then_do_def call_def
        pure_step_def u make_tasks_op_unchanged [OF assms]
        SI2ProjectUnitConverter_op_unchanged [OF assms] loop split: sum.splits)
qed

lemma Blender_calculate_op_unchanged:
  assumes "reads_only api view lib"
  shows "Blender_calculate_op api lib elements qs r s =
           (Blender_calculate lib (view s) elements qs r, s)"
  by (simp add: Blender_calculate_op_def Blender_calculate_def then_do_def pure_step_def
      SI2ProjectUnitConverter_op_unchanged [OF assms])

lemma quantify_calculator_op_unchanged:
  assumes "reads_only api view lib"
  shows "quantify_calculator_op (calculators_op api lib) view lib by_classes cq r s =
     (quantify_calculator (calculators lib) lib (view s) by_classes cq r, s)"
proof -
  have query: "quantify_query_op (c_op) view lib by_classes q r' s =
      (quantify_query c lib (view s) by_classes q r', s)"
    if "\<And>es qt r''. c_op es qt r'' s = (c (view s) es qt r'', s)" for c_op c q r'
    by (simp add: quantify_query_op_def quantify_query_def Let_def ret_def that)
  have names: "map_of (calculators_op api lib) n =
      (if n = ''Blender'' then Some (Blender_calculate_op api lib)
       else if n = ''IfcOpenShell'' then Some (IfcOpenShell_calculate_op api lib) else None)" for n
    by (simp add: calculators_op_def)
  show ?thesis
  proof (cases "fst cq = ''Blender''")
    case True
    have "for_each_op (quantify_query_op (Blender_calculate_op api lib) view lib by_classes) (snd cq) r s =
        (for_each (quantify_query (Blender_calculate lib) lib (view s) by_classes) (snd cq) r, s)"
      by (rule for_each_op_unchanged) (rule query, rule Blender_calculate_op_unchanged [OF assms])
    with True show ?thesis
      by (simp add: quantify_calculator_op_def quantify_calculator_def names map_of_calculators)
  next
    case False
    show ?thesis
    proof (cases "fst cq = ''IfcOpenShell''")
      case True
      have "for_each_op (quantify_query_op (IfcOpenShell_calculate_op api lib) view lib by_classes) (snd cq) r s =
          (for_each (quantify_query (IfcOpenShell_calculate lib) lib (view s) by_classes) (snd cq) r, s)"
        by (rule for_each_op_unchanged) (rule query, rule IfcOpenShell_calculate_op_unchanged [OF assms])
      with True False show ?thesis
        by (simp add: quantify_calculator_op_def quantify_calculator_def names map_of_calculators)
    next
      case no: False
      with False show ?thesis
        by (simp add: quantify_calculator_op_def quantify_calculator_def names map_of_calculators raise_def)
    qed
  qed
qed

text \<open>
  C7. Given that the library functions \<open>quantify\<close> calls on the file
  (\<open>calculate_unit_scale\<close>, \<open>get_context\<close>, \<open>get_project_unit\<close> and the geometry
  iterator) leave the file as it is, \<open>quantify\<close> returns with the file in the state in
  which it was called, whether it returns results or raises, and its results are those
  computed by reading that file. The writes are in \<open>edit_qtos\<close>: for a quantity set that
  the element does not have, it adds one to the file and edits it.
\<close>

theorem quantify_leaves_file_unchanged:
  assumes "reads_only api view lib"
  shows "quantify_op api view lib elements rules s = (quantify lib (view s) elements rules, s) \<and>
    (\<forall>element name quantities. api_get_pset api element name s = None \<longrightarrow>
       edit_qtos api [(element, [(name, quantities)])] s =
         api_edit_qto api (fst (api_add_qto api element name s)) quantities
           (snd (api_add_qto api element name s)))"
proof (intro conjI allI impI)
  show "quantify_op api view lib elements rules s = (quantify lib (view s) elements rules, s)"
  proof (cases "calculators_key rules")
    case None
    then show ?thesis
      by (simp add: quantify_op_def quantify_def quantify_body_def Let_def raise_def)
  next
    case (Some cs)
    have "for_each_op (quantify_calculator_op (calculators_op api lib) view lib (elements_by_classes elements))
            cs Map.empty s =
          (for_each (quantify_calculator (calculators lib) lib (view s) (elements_by_classes elements))
            cs Map.empty, s)"
      by (rule for_each_op_unchanged) (rule quantify_calculator_op_unchanged [OF assms])
    with Some show ?thesis
      by (simp add: quantify_op_def quantify_def quantify_body_def Let_def)
  qed
next
  fix element name quantities
  assume "api_get_pset api element name s = None"
  then show "edit_qtos api [(element, [(name, quantities)])] s =
         api_edit_qto api (fst (api_add_qto api element name s)) quantities
           (snd (api_add_qto api element name s))"
    by (simp add: edit_qtos_def edit_qto_entry_def)
qed

lemma sample_api_sel:
  "api_calculate_unit_scale sample_api = (\<lambda>s. (1 / 1000, s))"
  "api_get_context sample_api = (\<lambda>s. (body_context sample_file, s))"
  "api_get_project_unit sample_api = (\<lambda>t s. (get_project_unit sample_file t, s))"
  "api_geom_iterator sample_api = (\<lambda>st n inc s. (geom_iterator sample_library st sample_file n inc, s))"
  "api_get_pset sample_api = (\<lambda>e n s.
         map_of (zip (map (\<lambda>(e', n', q). (e', n')) s) [0 ..< length s]) (e, n))"
  "api_add_qto sample_api = (\<lambda>e n s. (length s, s @ [(e, n, [])]))"
  "api_edit_qto sample_api = (\<lambda>i q s. s[i := (fst (s ! i), fst (snd (s ! i)), q)])"
  by (simp_all add: sample_api_def)

theorem quantify_leaves_file_unchanged_witness:
  "snd (quantify_op sample_api (\<lambda>s. sample_file) sample_library
          [sample_wall, sample_wall_type, sample_door] sample_rules []) = [] \<and>
   fst (quantify_op sample_api (\<lambda>s. sample_file) sample_library
          [sample_wall, sample_wall_type, sample_door] sample_rules []) =
     quantify sample_library sample_file [sample_wall, sample_wall_type, sample_door] sample_rules \<and>
   edit_qtos sample_api [(sample_door, [(''Qto_DoorBaseQuantities'', [(''Width'', Some 2000)])])] [] =
     [(sample_door, ''Qto_DoorBaseQuantities'', [(''Width'', Some 2000)])]"
proof -
  have ro: "reads_only sample_api (\<lambda>s. sample_file) sample_library"
    by (simp add: reads_only_def sample_api_sel)
  note t = quantify_leaves_file_unchanged [OF ro, of "[sample_wall, sample_wall_type, sample_door]"
      sample_rules "[]"]
  have none: "api_get_pset sample_api sample_door ''Qto_DoorBaseQuantities'' [] = None"
    by (simp add: sample_api_sel)
  from t [THEN conjunct2, THEN spec, THEN spec, THEN spec, THEN mp, OF none,
      of "[(''Width'', Some 2000)]"]
  have e: "edit_qtos sample_api [(sample_door, [(''Qto_DoorBaseQuantities'', [(''Width'', Some 2000)])])] [] =
     [(sample_door, ''Qto_DoorBaseQuantities'', [(''Width'', Some 2000)])]"
    by (simp add: sample_api_sel)
  from t [THEN conjunct1] e show ?thesis by simp
qed

subsection \<open>What the Blender calculator stores\<close>

lemma blender_quantity_other:
  assumes "blender_quantity lib conv obj qf qr = Inr qr'" and "fst qf \<noteq> quantity"
  shows "qr' quantity = qr quantity"
  using assms
  by (auto simp: blender_quantity_def split: option.splits if_splits sum.splits)

lemma blender_quantity_value:
  assumes "blender_quantity lib conv obj (quantity, Some formula) qr = Inr qr'"
    and "formula \<noteq> []" and "calculator_getattr lib formula = Some fn" and "fn obj = Some v"
  shows "\<exists>f v'. map_of Blender_functions formula = Some f \<and>
      convert lib conv v (fn_measure f) = Inr v' \<and> qr' quantity = Some (Some v')"
  using assms
  by (auto simp: blender_quantity_def split: option.splits sum.splits)

lemma blender_quantities_value:
  assumes run: "for_each (blender_quantity lib conv obj) quantities qr0 = Inr qr"
    and d: "distinct (map fst quantities)" and qf: "(quantity, Some formula) \<in> set quantities"
    and f: "formula \<noteq> []" "calculator_getattr lib formula = Some fn" "fn obj = Some v"
  shows "\<exists>f v'. map_of Blender_functions formula = Some f \<and>
      convert lib conv v (fn_measure f) = Inr v' \<and> qr quantity = Some (Some v')"
proof -
  let ?Q = "\<lambda>x. \<exists>f v'. map_of Blender_functions formula = Some f \<and>
      convert lib conv v (fn_measure f) = Inr v' \<and> x quantity = Some (Some v')"
  have "True \<and> ?Q qr"
  proof (rule for_each_establish [where P = "\<lambda>x. True" and Q = ?Q and x = "(quantity, Some formula)", OF run])
    show "(quantity, Some formula) \<in> set quantities \<or> ?Q qr0" using qf by simp
  next
    fix a b
    assume "blender_quantity lib conv obj (quantity, Some formula) a = Inr b"
    from blender_quantity_value [OF this f] show "?Q b" .
  next
    fix y a b
    assume y: "y \<in> set quantities" "y \<noteq> (quantity, Some formula)" and a: "?Q a"
      and b: "blender_quantity lib conv obj y a = Inr b"
    from y d qf have "fst y \<noteq> quantity"
      by (metis eq_key_imp_eq_value prod.collapse)
    from blender_quantity_other [OF b this] a show "?Q b" by simp
  qed simp_all
  then show ?thesis by simp
qed

lemma blender_qto_other:
  assumes "blender_qto lib conv obj nq er = Inr er'" and "fst nq \<noteq> name"
  shows "er' name = er name"
  using assms
  by (auto simp: blender_qto_def split: sum.splits if_splits)

lemma blender_qto_value:
  assumes run: "blender_qto lib conv obj (name, quantities) er = Inr er'"
    and d: "distinct (map fst quantities)" and qf: "(quantity, Some formula) \<in> set quantities"
    and f: "formula \<noteq> []" "calculator_getattr lib formula = Some fn" "fn obj = Some v"
  shows "\<exists>f v' qr. map_of Blender_functions formula = Some f \<and>
      convert lib conv v (fn_measure f) = Inr v' \<and> er' name = Some qr \<and> qr quantity = Some (Some v')"
proof -
  from run obtain qr where qr: "for_each (blender_quantity lib conv obj) quantities Map.empty = Inr qr"
    and er': "er' = (if qr \<noteq> Map.empty then er(name \<mapsto> qr) else er)"
    by (auto simp: blender_qto_def split: sum.splits)
  from blender_quantities_value [OF qr d qf f] obtain f v' where
    v: "map_of Blender_functions formula = Some f" "convert lib conv v (fn_measure f) = Inr v'"
      "qr quantity = Some (Some v')"
    by blast
  from v(3) have "qr \<noteq> Map.empty" by auto
  with er' have "er' name = Some qr" by simp
  with v show ?thesis by blast
qed

lemma blender_qtos_value:
  assumes run: "for_each (blender_qto lib conv obj) qs er0 = Inr er"
    and wf: "keys_distinct qs"
    and nq: "(name, quantities) \<in> set qs" and qf: "(quantity, Some formula) \<in> set quantities"
    and f: "formula \<noteq> []" "calculator_getattr lib formula = Some fn" "fn obj = Some v"
  shows "\<exists>f v' qr. map_of Blender_functions formula = Some f \<and>
      convert lib conv v (fn_measure f) = Inr v' \<and> er name = Some qr \<and> qr quantity = Some (Some v')"
proof -
  let ?Q = "\<lambda>x. \<exists>f v' qr. map_of Blender_functions formula = Some f \<and>
      convert lib conv v (fn_measure f) = Inr v' \<and> x name = Some qr \<and> qr quantity = Some (Some v')"
  from wf nq have d: "distinct (map fst quantities)" by (auto simp: keys_distinct_def)
  have "True \<and> ?Q er"
  proof (rule for_each_establish [where P = "\<lambda>x. True" and Q = ?Q and x = "(name, quantities)", OF run])
    show "(name, quantities) \<in> set qs \<or> ?Q er0" using nq by simp
  next
    fix a b
    assume "blender_qto lib conv obj (name, quantities) a = Inr b"
    from blender_qto_value [OF this d qf f] show "?Q b" .
  next
    fix y a b
    assume y: "y \<in> set qs" "y \<noteq> (name, quantities)" and a: "?Q a"
      and b: "blender_qto lib conv obj y a = Inr b"
    from y wf nq have "fst y \<noteq> name"
      unfolding keys_distinct_def by (metis eq_key_imp_eq_value prod.collapse)
    from blender_qto_other [OF b this] a show "?Q b" by simp
  qed simp_all
  then show ?thesis by simp
qed

lemma blender_element_other:
  assumes "blender_element lib conv qs e' r = Inr r'" and "e' \<noteq> e"
  shows "result_at r' e name quantity = result_at r e name quantity"
  using blender_element_cases [OF assms(1)] assms(2)
  by (elim disjE exE) (simp_all add: result_at_def)

lemma blender_element_value:
  assumes run: "blender_element lib conv qs e r = Inr r'"
    and obj: "get_object lib e = Some obj" "object_type obj = ''MESH''"
    and wf: "keys_distinct qs"
    and nq: "(name, quantities) \<in> set qs" and qf: "(quantity, Some formula) \<in> set quantities"
    and f: "formula \<noteq> []" "calculator_getattr lib formula = Some fn" "fn obj = Some v"
  shows "\<exists>f v'. map_of Blender_functions formula = Some f \<and>
      convert lib conv v (fn_measure f) = Inr v' \<and> result_at r' e name quantity = Some (Some v')"
proof -
  from run obj obtain er where er: "for_each (blender_qto lib conv obj) qs Map.empty = Inr er"
    and r': "r' = (if er \<noteq> Map.empty then r(e \<mapsto> er) else r)"
    by (auto simp: blender_element_def split: sum.splits)
  from blender_qtos_value [OF er wf nq qf f] obtain f v' qr where
    v: "map_of Blender_functions formula = Some f" "convert lib conv v (fn_measure f) = Inr v'"
      "er name = Some qr" "qr quantity = Some (Some v')"
    by blast
  from v(3) have "er \<noteq> Map.empty" by auto
  with r' v(3,4) have "result_at r' e name quantity = Some (Some v')"
    by (simp add: result_at_def)
  with v(1,2) show ?thesis by blast
qed

lemma Blender_calculate_value:
  assumes run: "Blender_calculate lib ifc_file elements qs r = Inr r'"
    and e: "e \<in> set elements"
    and obj: "get_object lib e = Some obj" "object_type obj = ''MESH''"
    and wf: "keys_distinct qs"
    and nq: "(name, quantities) \<in> set qs" and qf: "(quantity, Some formula) \<in> set quantities"
    and f: "formula \<noteq> []" "calculator_getattr lib formula = Some fn" "fn obj = Some v"
  shows "\<exists>f v'. map_of Blender_functions formula = Some f \<and>
      convert lib (SI2ProjectUnitConverter ifc_file) v (fn_measure f) = Inr v' \<and>
      result_at r' e name quantity = Some (Some v')"
proof -
  let ?conv = "SI2ProjectUnitConverter ifc_file"
  let ?Q = "\<lambda>x. \<exists>f v'. map_of Blender_functions formula = Some f \<and>
      convert lib ?conv v (fn_measure f) = Inr v' \<and> result_at x e name quantity = Some (Some v')"
  from run have loop: "for_each (blender_element lib ?conv qs) elements r = Inr r'"
    by (simp add: Blender_calculate_def)
  have "True \<and> ?Q r'"
  proof (rule for_each_establish [where P = "\<lambda>x. True" and Q = ?Q and x = e, OF loop])
    show "e \<in> set elements \<or> ?Q r" using e by simp
  next
    fix a b
    assume "blender_element lib ?conv qs e a = Inr b"
    from blender_element_value [OF this obj wf nq qf f] show "?Q b" .
  next
    fix y a b
    assume y: "y \<in> set elements" "y \<noteq> e" and a: "?Q a"
      and b: "blender_element lib ?conv qs y a = Inr b"
    from blender_element_other [OF b y(2), of name quantity] a show "?Q b" by simp
  qed simp_all
  then show ?thesis by simp
qed

lemma invoke_calculators:
  "invoke (calculators lib) ifc_file (''Blender'', es, q) r = Blender_calculate lib ifc_file es q r"
  "invoke (calculators lib) ifc_file (''IfcOpenShell'', es, q) r = IfcOpenShell_calculate lib ifc_file es q r"
  by (simp_all add: invoke_def map_of_calculators)

lemma quantify_replay:
  assumes "calculators_key rules = Some cs"
    and "\<forall>cq \<in> set cs. fst cq = ''Blender'' \<or> fst cq = ''IfcOpenShell''"
  shows "\<exists>calls. quantify_calls lib ifc_file elements rules = Inr calls \<and>
     map call_set calls = specified_calls lib ifc_file elements cs \<and>
     quantify lib ifc_file elements rules =
       for_each (invoke (calculators lib) ifc_file) calls Map.empty"
proof -
  let ?bc = "elements_by_classes elements"
  from record_calculator [OF assms(2), of lib ifc_file elements "[]"] obtain calls where
    calls: "for_each (quantify_calculator recording_calculators lib ifc_file ?bc) cs [] = Inr calls"
      "map call_set calls = specified_calls lib ifc_file elements cs"
    by auto
  have "map_of (calculators lib) ''Blender'' \<noteq> None" "map_of (calculators lib) ''IfcOpenShell'' \<noteq> None"
    by (simp_all add: map_of_calculators)
  from replay_calculator [OF assms(2) this, of lib ifc_file ?bc "[]"] obtain calls' where
    calls': "for_each (quantify_calculator recording_calculators lib ifc_file ?bc) cs [] = Inr calls'"
      "\<And>r. for_each (quantify_calculator (calculators lib) lib ifc_file ?bc) cs r =
        for_each (invoke (calculators lib) ifc_file) calls' r"
    by auto
  from calls(1) calls'(1) have "calls' = calls" by simp
  with calls'(2) have "quantify lib ifc_file elements rules =
       for_each (invoke (calculators lib) ifc_file) calls Map.empty"
    by (simp add: quantify_def quantify_body_def Let_def assms(1))
  with calls assms(1) show ?thesis
    by (simp add: quantify_calls_def quantify_body_def Let_def)
qed

subsection \<open>Dispatch to the two calculators\<close>

text \<open>
  C5. The table \<open>calculators\<close> has exactly the two entries \<open>Blender\<close> and
  \<open>IfcOpenShell\<close>, bound to the two \<open>calculate\<close> functions, and a rule group under any
  other name raises \<open>KeyError\<close>. When every rule group names one of the two,
  \<open>quantify\<close> is the run, in order, of one call per rule entry with a match on the
  \<open>calculate\<close> of the calculator the entry's group names, and of nothing else. The
  Blender calculator measures loaded mesh objects: an element with no Blender
  object, or with one that is not a mesh, gets nothing from it, and for an element
  with a mesh it stores what the calculator function of the formula returns on the
  mesh, converted. The IfcOpenShell calculator measures the geometry that the
  iterators of the geometry kernel deliver: it stores the shape function of the
  formula applied to a geometry delivered for the element, converted.
\<close>

theorem quantify_dispatch_two_calculators:
  "map fst (calculators lib) = [''Blender'', ''IfcOpenShell''] \<and>
   map_of (calculators lib) ''Blender'' = Some (Blender_calculate lib) \<and>
   map_of (calculators lib) ''IfcOpenShell'' = Some (IfcOpenShell_calculate lib) \<and>
   (\<forall>cq a. fst cq \<noteq> ''Blender'' \<and> fst cq \<noteq> ''IfcOpenShell'' \<longrightarrow>
      quantify_calculator (calculators lib) lib ifc_file by_classes cq a = Inl (KeyError (fst cq))) \<and>
   (\<forall>r cs. quantify lib ifc_file elements rules = Inr r \<and> calculators_key rules = Some cs \<longrightarrow>
      (\<forall>cq \<in> set cs. fst cq = ''Blender'' \<or> fst cq = ''IfcOpenShell'')) \<and>
   (\<forall>conv qs e r. get_object lib e = None \<longrightarrow> blender_element lib conv qs e r = Inr r) \<and>
   (\<forall>conv qs e obj r. get_object lib e = Some obj \<and> object_type obj \<noteq> ''MESH'' \<longrightarrow>
      blender_element lib conv qs e r = Inr r) \<and>
   (\<forall>cs. calculators_key rules = Some cs \<and>
        (\<forall>cq \<in> set cs. fst cq = ''Blender'' \<or> fst cq = ''IfcOpenShell'') \<longrightarrow>
      (\<exists>calls. quantify_calls lib ifc_file elements rules = Inr calls \<and>
         map call_set calls = specified_calls lib ifc_file elements cs \<and>
         quantify lib ifc_file elements rules =
           for_each (invoke (calculators lib) ifc_file) calls Map.empty)) \<and>
   (\<forall>es q r. invoke (calculators lib) ifc_file (''Blender'', es, q) r =
        Blender_calculate lib ifc_file es q r \<and>
      invoke (calculators lib) ifc_file (''IfcOpenShell'', es, q) r =
        IfcOpenShell_calculate lib ifc_file es q r) \<and>
   (\<forall>es qs r r' e obj name quantities quantity formula fn v.
      Blender_calculate lib ifc_file es qs r = Inr r' \<and> e \<in> set es \<and>
      get_object lib e = Some obj \<and> object_type obj = ''MESH'' \<and> keys_distinct qs \<and>
      (name, quantities) \<in> set qs \<and> (quantity, Some formula) \<in> set quantities \<and>
      formula \<noteq> [] \<and> calculator_getattr lib formula = Some fn \<and> fn obj = Some v \<longrightarrow>
      (\<exists>f v'. map_of Blender_functions formula = Some f \<and>
         convert lib (SI2ProjectUnitConverter ifc_file) v (fn_measure f) = Inr v' \<and>
         result_at r' e name quantity = Some (Some v'))) \<and>
   (\<forall>es qs r r' e g0 its it0 name quantities quantity formula F.
      IfcOpenShell_calculate lib ifc_file es qs r = Inr r' \<and> keys_distinct qs \<and>
      (name, quantities) \<in> set qs \<and> (quantity, Some formula) \<in> set quantities \<and>
      (formula = ''gross_'' @ F \<or> formula = ''net_'' @ F) \<and> F \<noteq> ''get_segment_length'' \<and>
      create_iterators lib ifc_file gross_settings es = Inr its \<and> it0 \<in> set its \<and>
      (e, g0) \<in> set (iterator_shapes lib ifc_file it0) \<longrightarrow>
      (\<exists>it geom fn f v. it \<in> set its \<and> (e, geom) \<in> set (iterator_shapes lib ifc_file it) \<and>
         shape_getattr lib F = Some fn \<and> map_of raw_functions F = Some f \<and>
         convert lib (SI2ProjectUnitConverter ifc_file) (fn geom) (fn_measure f) = Inr v \<and>
         result_at r' e name quantity = Some (Some v)))"
proof (intro conjI allI impI ballI)
  show "map fst (calculators lib) = [''Blender'', ''IfcOpenShell'']"
    by (simp add: calculators_def)
  show "map_of (calculators lib) ''Blender'' = Some (Blender_calculate lib)"
    by (simp add: map_of_calculators)
  show "map_of (calculators lib) ''IfcOpenShell'' = Some (IfcOpenShell_calculate lib)"
    by (simp add: map_of_calculators)
next
  fix cq :: "string \<times> queries" and a
  assume "fst cq \<noteq> ''Blender'' \<and> fst cq \<noteq> ''IfcOpenShell''"
  then show "quantify_calculator (calculators lib) lib ifc_file by_classes cq a = Inl (KeyError (fst cq))"
    by (simp add: quantify_calculator_def map_of_calculators)
next
  fix r cs cq
  assume a: "quantify lib ifc_file elements rules = Inr r \<and> calculators_key rules = Some cs"
    and cq: "cq \<in> set cs"
  from a have "quantify_body (calculators lib) lib ifc_file elements rules Map.empty = Inr r"
    by (simp add: quantify_def)
  from quantify_body_registered [OF this conjunct2 [OF a] cq]
  show "fst cq = ''Blender'' \<or> fst cq = ''IfcOpenShell''"
    by (auto simp: calculators_def)
next
  fix conv qs e r
  assume "get_object lib e = None"
  then show "blender_element lib conv qs e r = Inr r"
    by (simp add: blender_element_def)
next
  fix conv qs e obj r
  assume "get_object lib e = Some obj \<and> object_type obj \<noteq> ''MESH''"
  then show "blender_element lib conv qs e r = Inr r"
    by (simp add: blender_element_def)
next
  fix cs
  assume a: "calculators_key rules = Some cs \<and>
        (\<forall>cq \<in> set cs. fst cq = ''Blender'' \<or> fst cq = ''IfcOpenShell'')"
  from quantify_replay [OF conjunct1 [OF a] conjunct2 [OF a], of lib ifc_file elements]
  show "\<exists>calls. quantify_calls lib ifc_file elements rules = Inr calls \<and>
         map call_set calls = specified_calls lib ifc_file elements cs \<and>
         quantify lib ifc_file elements rules =
           for_each (invoke (calculators lib) ifc_file) calls Map.empty" .
next
  fix es q r
  show "invoke (calculators lib) ifc_file (''Blender'', es, q) r =
        Blender_calculate lib ifc_file es q r"
    by (rule invoke_calculators)
  show "invoke (calculators lib) ifc_file (''IfcOpenShell'', es, q) r =
        IfcOpenShell_calculate lib ifc_file es q r"
    by (rule invoke_calculators)
next
  fix es qs r r' e obj name quantities quantity formula fn v
  assume a: "Blender_calculate lib ifc_file es qs r = Inr r' \<and> e \<in> set es \<and>
      get_object lib e = Some obj \<and> object_type obj = ''MESH'' \<and> keys_distinct qs \<and>
      (name, quantities) \<in> set qs \<and> (quantity, Some formula) \<in> set quantities \<and>
      formula \<noteq> [] \<and> calculator_getattr lib formula = Some fn \<and> fn obj = Some v"
  then have h: "Blender_calculate lib ifc_file es qs r = Inr r'" "e \<in> set es"
      "get_object lib e = Some obj" "object_type obj = ''MESH''" "keys_distinct qs"
      "(name, quantities) \<in> set qs" "(quantity, Some formula) \<in> set quantities"
      "formula \<noteq> []" "calculator_getattr lib formula = Some fn" "fn obj = Some v"
    by simp_all
  from Blender_calculate_value [OF h]
  show "\<exists>f v'. map_of Blender_functions formula = Some f \<and>
         convert lib (SI2ProjectUnitConverter ifc_file) v (fn_measure f) = Inr v' \<and>
         result_at r' e name quantity = Some (Some v')" .
next
  fix es qs r r' e g0 its it0 name quantities quantity formula F
  assume a: "IfcOpenShell_calculate lib ifc_file es qs r = Inr r' \<and> keys_distinct qs \<and>
      (name, quantities) \<in> set qs \<and> (quantity, Some formula) \<in> set quantities \<and>
      (formula = ''gross_'' @ F \<or> formula = ''net_'' @ F) \<and> F \<noteq> ''get_segment_length'' \<and>
      create_iterators lib ifc_file gross_settings es = Inr its \<and> it0 \<in> set its \<and>
      (e, g0) \<in> set (iterator_shapes lib ifc_file it0)"
  then have h: "IfcOpenShell_calculate lib ifc_file es qs r = Inr r'" "keys_distinct qs"
      "(name, quantities) \<in> set qs" "(quantity, Some formula) \<in> set quantities"
    and form: "formula = ''gross_'' @ F \<or> formula = ''net_'' @ F"
    and rest: "F \<noteq> ''get_segment_length''"
      "create_iterators lib ifc_file gross_settings es = Inr its" "it0 \<in> set its"
      "(e, g0) \<in> set (iterator_shapes lib ifc_file it0)"
    by simp_all
  from form have "formula = (if True then ''gross_'' else ''net_'') @ F \<or>
      formula = (if False then ''gross_'' else ''net_'') @ F"
    by simp
  then show "\<exists>it geom fn f v. it \<in> set its \<and> (e, geom) \<in> set (iterator_shapes lib ifc_file it) \<and>
         shape_getattr lib F = Some fn \<and> map_of raw_functions F = Some f \<and>
         convert lib (SI2ProjectUnitConverter ifc_file) (fn geom) (fn_measure f) = Inr v \<and>
         result_at r' e name quantity = Some (Some v)"
  proof
    assume "formula = (if True then ''gross_'' else ''net_'') @ F"
    from calculate_stored_value [OF h this rest] show ?thesis .
  next
    assume "formula = (if False then ''gross_'' else ''net_'') @ F"
    from calculate_stored_value [OF h this rest] show ?thesis .
  qed
qed

theorem quantify_dispatch_two_calculators_witness:
  "quantify_calculator (calculators sample_library) sample_library sample_file [] (''Revit'', []) Map.empty
     = Inl (KeyError ''Revit'') \<and>
   list_all (\<lambda>cq. fst cq = ''Blender'' \<or> fst cq = ''IfcOpenShell'')
     [(''IfcOpenShell'', [(''IfcWall'', sample_wall_qtos), (''IfcSlab'', sample_wall_qtos)]),
      (''Blender'', [(''IfcDoor'', sample_door_qtos)])] \<and>
   blender_element sample_library [] sample_door_qtos sample_wall Map.empty = Inr Map.empty \<and>
   (\<exists>calls. quantify_calls sample_library sample_file [sample_wall, sample_wall_type, sample_door] sample_rules
        = Inr calls \<and>
      map call_set calls =
        [(''IfcOpenShell'', {sample_wall, sample_wall_type}, sample_wall_qtos),
         (''Blender'', {sample_door}, sample_door_qtos)] \<and>
      quantify sample_library sample_file [sample_wall, sample_wall_type, sample_door] sample_rules =
        for_each (invoke (calculators sample_library) sample_file) calls Map.empty) \<and>
   (\<exists>r. Blender_calculate sample_library sample_file [sample_door] sample_door_qtos Map.empty = Inr r \<and>
      calculator_getattr sample_library ''get_width'' = Some (\<lambda>ob. Some 2) \<and>
      result_at r sample_door ''Qto_DoorBaseQuantities'' ''Width'' = Some (Some 2000)) \<and>
   (\<exists>r. IfcOpenShell_calculate sample_library sample_file [sample_wall_type, sample_wall]
          sample_wall_qtos Map.empty = Inr r \<and>
      map_option (\<lambda>fn. fn \<lparr>verts = [2, 3], faces = [0]\<rparr>)
        (shape_getattr sample_library ''get_x'') = Some 2 \<and>
      result_at r sample_wall ''Qto_WallBaseQuantities'' ''Length'' = Some (Some 2000))"
proof -
  let ?es = "[sample_wall, sample_wall_type, sample_door]"
  let ?cs = "[(''IfcOpenShell'', [(''IfcWall'', sample_wall_qtos), (''IfcSlab'', sample_wall_qtos)]),
         (''Blender'', [(''IfcDoor'', sample_door_qtos)])]"
  note t = quantify_dispatch_two_calculators [where lib = sample_library and ifc_file = sample_file
      and by_classes = "[]" and elements = ?es and rules = sample_rules]
  note t4 = t [THEN conjunct2, THEN conjunct2, THEN conjunct2, THEN conjunct1]
  note t5 = t [THEN conjunct2, THEN conjunct2, THEN conjunct2, THEN conjunct2, THEN conjunct1]
  note t6 = t [THEN conjunct2, THEN conjunct2, THEN conjunct2, THEN conjunct2, THEN conjunct2,
      THEN conjunct1]
  note t8 = t [THEN conjunct2, THEN conjunct2, THEN conjunct2, THEN conjunct2, THEN conjunct2,
      THEN conjunct2, THEN conjunct2, THEN conjunct1]
  note t10 = t [THEN conjunct2, THEN conjunct2, THEN conjunct2, THEN conjunct2, THEN conjunct2,
      THEN conjunct2, THEN conjunct2, THEN conjunct2, THEN conjunct2, THEN conjunct1]
  note t11 = t [THEN conjunct2, THEN conjunct2, THEN conjunct2, THEN conjunct2, THEN conjunct2,
      THEN conjunct2, THEN conjunct2, THEN conjunct2, THEN conjunct2, THEN conjunct2]
  have key: "calculators_key sample_rules = Some ?cs"
    by (simp add: sample_rules_def)
  have c1: "quantify_calculator (calculators sample_library) sample_library sample_file [] (''Revit'', []) Map.empty
     = Inl (KeyError ''Revit'')"
    using t4 [THEN spec, THEN spec, THEN mp, of "(''Revit'', [])" Map.empty] by simp
  have names: "\<forall>cq \<in> set ?cs. fst cq = ''Blender'' \<or> fst cq = ''IfcOpenShell''"
    by (rule t5 [THEN spec, THEN spec, THEN mp, OF conjI [OF sample_quantify key]])
  then have c2: "list_all (\<lambda>cq. fst cq = ''Blender'' \<or> fst cq = ''IfcOpenShell'') ?cs"
    unfolding list_all_iff .
  have no_object: "get_object sample_library sample_wall = None"
    by (simp add: sample_library_sel sample_elements)
  have c3: "blender_element sample_library [] sample_door_qtos sample_wall Map.empty = Inr Map.empty"
    by (rule t6 [THEN spec, THEN spec, THEN spec, THEN spec, THEN mp, OF no_object])
  have sc: "specified_calls sample_library sample_file ?es ?cs =
       [(''IfcOpenShell'', {sample_wall, sample_wall_type}, sample_wall_qtos),
        (''Blender'', {sample_door}, sample_door_qtos)]"
    by (simp add: specified_calls_def sample_matching)
  have c4: "\<exists>calls. quantify_calls sample_library sample_file ?es sample_rules = Inr calls \<and>
      map call_set calls =
        [(''IfcOpenShell'', {sample_wall, sample_wall_type}, sample_wall_qtos),
         (''Blender'', {sample_door}, sample_door_qtos)] \<and>
      quantify sample_library sample_file ?es sample_rules =
        for_each (invoke (calculators sample_library) sample_file) calls Map.empty"
    using t8 [THEN spec, THEN mp, OF conjI [OF key names]] unfolding sc .
  let ?rb = "Map.empty(sample_door \<mapsto> [''Qto_DoorBaseQuantities'' \<mapsto> [''Width'' \<mapsto> Some (2000::real)]])"
  have getattr: "calculator_getattr sample_library ''get_width'' = Some (\<lambda>ob. Some 2)"
    by (simp add: sample_library_sel)
  have bprem: "Blender_calculate sample_library sample_file [sample_door] sample_door_qtos Map.empty = Inr ?rb \<and>
      sample_door \<in> set [sample_door] \<and>
      get_object sample_library sample_door = Some \<lparr>object_name = ''Door'', object_type = ''MESH''\<rparr> \<and>
      object_type \<lparr>object_name = ''Door'', object_type = ''MESH''\<rparr> = ''MESH'' \<and>
      keys_distinct sample_door_qtos \<and>
      (''Qto_DoorBaseQuantities'', [(''Width'', Some ''get_width'')]) \<in> set sample_door_qtos \<and>
      (''Width'', Some ''get_width'') \<in> set [(''Width'', Some ''get_width'')] \<and>
      ''get_width'' \<noteq> [] \<and> calculator_getattr sample_library ''get_width'' = Some (\<lambda>ob. Some 2) \<and>
      (\<lambda>ob. Some 2) \<lparr>object_name = ''Door'', object_type = ''MESH''\<rparr> = Some (2::real)"
  proof (intro conjI)
    show "Blender_calculate sample_library sample_file [sample_door] sample_door_qtos Map.empty = Inr ?rb"
      by (rule sample_blender)
    show "calculator_getattr sample_library ''get_width'' = Some (\<lambda>ob. Some 2)"
      by (rule getattr)
  qed (simp_all add: sample_library_sel sample_elements keys_distinct_def sample_door_qtos_def)
  from t10 [rule_format, OF bprem]
  have bres: "result_at ?rb sample_door ''Qto_DoorBaseQuantities'' ''Width'' = Some (Some 2000)"
    by (simp add: result_at_def)
  have c5: "\<exists>r. Blender_calculate sample_library sample_file [sample_door] sample_door_qtos Map.empty = Inr r \<and>
      calculator_getattr sample_library ''get_width'' = Some (\<lambda>ob. Some 2) \<and>
      result_at r sample_door ''Qto_DoorBaseQuantities'' ''Width'' = Some (Some 2000)"
    by (rule exI [of _ ?rb]) (simp only: sample_blender getattr bres simp_thms)
  let ?r = "[sample_wall_type \<mapsto> [''Qto_WallBaseQuantities'' \<mapsto> [''Length'' \<mapsto> Some 4000, ''NetVolume'' \<mapsto> Some 9]],
          sample_wall \<mapsto> [''Qto_WallBaseQuantities'' \<mapsto> [''Length'' \<mapsto> Some 2000, ''NetVolume'' \<mapsto> Some (5::real)]]]"
  have iprem: "IfcOpenShell_calculate sample_library sample_file [sample_wall_type, sample_wall]
        sample_wall_qtos Map.empty = Inr ?r \<and>
      keys_distinct sample_wall_qtos \<and>
      (''Qto_WallBaseQuantities'',
        [(''Length'', Some ''gross_get_x''), (''NetVolume'', Some ''net_get_volume'')]) \<in> set sample_wall_qtos \<and>
      (''Length'', Some ''gross_get_x'') \<in>
        set [(''Length'', Some ''gross_get_x''), (''NetVolume'', Some ''net_get_volume'')] \<and>
      (''gross_get_x'' = ''gross_'' @ ''get_x'' \<or> ''gross_get_x'' = ''net_'' @ ''get_x'') \<and>
      ''get_x'' \<noteq> ''get_segment_length'' \<and>
      create_iterators sample_library sample_file gross_settings [sample_wall_type, sample_wall] =
        Inr [IteratorForTypes gross_settings [sample_wall_type] 5,
             GeomIterator gross_settings 4 [sample_wall_type, sample_wall]] \<and>
      GeomIterator gross_settings 4 [sample_wall_type, sample_wall] \<in>
        set [IteratorForTypes gross_settings [sample_wall_type] 5,
             GeomIterator gross_settings 4 [sample_wall_type, sample_wall]] \<and>
      (sample_wall, \<lparr>verts = [2, 3], faces = [0]\<rparr>) \<in>
        set (iterator_shapes sample_library sample_file
               (GeomIterator gross_settings 4 [sample_wall_type, sample_wall]))"
  proof (intro conjI)
    show "IfcOpenShell_calculate sample_library sample_file [sample_wall_type, sample_wall]
        sample_wall_qtos Map.empty = Inr ?r"
      by (rule sample_calculate)
    show "keys_distinct sample_wall_qtos"
      by (rule sample_keys_distinct)
    show "create_iterators sample_library sample_file gross_settings [sample_wall_type, sample_wall] =
        Inr [IteratorForTypes gross_settings [sample_wall_type] 5,
             GeomIterator gross_settings 4 [sample_wall_type, sample_wall]]"
      by (rule sample_iterators)
    show "(sample_wall, \<lparr>verts = [2, 3], faces = [0]\<rparr>) \<in>
        set (iterator_shapes sample_library sample_file
               (GeomIterator gross_settings 4 [sample_wall_type, sample_wall]))"
      by (simp add: sample_geom_shapes)
  qed (simp_all add: sample_wall_qtos_def)
  from t11 [rule_format, OF iprem]
  have ires: "result_at ?r sample_wall ''Qto_WallBaseQuantities'' ''Length'' = Some (Some 2000)"
    by (simp add: result_at_def sample_elements)
  have fn: "map_option (\<lambda>fn. fn \<lparr>verts = [2, 3], faces = [0]\<rparr>)
        (shape_getattr sample_library ''get_x'') = Some 2"
    by (simp add: sample_library_sel)
  have c6: "\<exists>r. IfcOpenShell_calculate sample_library sample_file [sample_wall_type, sample_wall]
          sample_wall_qtos Map.empty = Inr r \<and>
      map_option (\<lambda>fn. fn \<lparr>verts = [2, 3], faces = [0]\<rparr>)
        (shape_getattr sample_library ''get_x'') = Some 2 \<and>
      result_at r sample_wall ''Qto_WallBaseQuantities'' ''Length'' = Some (Some 2000)"
    by (rule exI [of _ ?r]) (simp only: sample_calculate fn ires simp_thms)
  from c1 c2 c3 c4 c5 c6 show ?thesis
    by (intro conjI)
qed

end
